theory Spec2Isabelle
  imports Main "HOL-Library.Word"
begin

section \<open>The identity allocator of pkg/identity/cache/allocator.go\<close>

text \<open>
  The file keeps its state in package-level variables and calls into four collaborators
  whose code lives in other packages: the kvstore allocator (the distributed backend), the
  local identity cache, the controller manager and the identity watcher. The package-level
  variables are the fields of the record \<open>state\<close>; the collaborators' operations are the
  fields of the record \<open>env\<close>, so that every statement below holds for every behaviour of
  the collaborators. The backend and the local cache carry a state of their own, of the
  types \<open>'b\<close> and \<open>'c\<close>; label sets (labels.Labels) have the type \<open>'l\<close>.
\<close>

subsection \<open>Values\<close>

text \<open>idpool.ID is uint64, identity.NumericIdentity is uint32, and the reference count is a
  Go uint (64 bits on the platforms cilium builds for). A Go error is its message;
  the nil error is \<open>None\<close>.\<close>

type_synonym ID = "64 word"
type_synonym NumericIdentity = "32 word"
type_synonym error = string

record 'l Identity =
  ID :: NumericIdentity
  Labels :: 'l

text \<open>context.Context, as far as the file reads it: whether Done() is closed, and the text
  of Err().\<close>

record Context =
  ctxDone :: bool
  ctxErr :: string

record IdentityAllocatorOwner =
  GetNodeSuffix :: string

text \<open>How a call ends: it returns, it panics (log.Panic, a nil dereference, a write to a nil
  map, closing a closed channel), the process exits (log.Fatal), or it blocks in a select
  none of whose cases is ready.\<close>

datatype 'a outcome = Returns 'a | Panics string | Exits string | Blocks

subsection \<open>Observable effects\<close>

datatype mutex = setupMutex | identityRefCountMutex

datatype level = Debug | Info | Error | Panic | Fatal

datatype 'l field =
    F_NumericIdentity NumericIdentity
  | F_ID ID
  | F_IdentityPtr "'l Identity"
  | F_IdentityLabels string
  | F_isNew bool
  | F_error error

datatype 'l event =
    Lock mutex
  | Unlock mutex
  | Log level "'l field list" string
  | InitWellKnownIdentities
  | Watcher_watch
  | Watcher_stop
  | Allocator_NewAllocator string
  | Allocator_Allocate 'l
  | Allocator_Release 'l
  | Allocator_WaitForInitialSync
  | Allocator_Delete
  | Controller_NewManager
  | Controller_UpdateController string
  | Controller_RemoveControllerAndWait string
  | Controller_RemoveAllAndWait
  | Local_newLocalIdentityCache
  | Local_lookupOrCreate 'l
  | Local_release "'l Identity"
  | RefCount_make
  | RefCount_incr ID
  | RefCount_decr ID
  | Assign_IdentityAllocator
  | Chan_close
  | Chan_make

subsection \<open>The controller manager\<close>

text \<open>The parameters given to a controller. DoFunc is a closure over the label set; it is
  represented by the label set it captures. RunInterval is in nanoseconds (time.Millisecond
  is 1000000).\<close>

record 'l ControllerParams =
  DoFunc :: 'l
  RunInterval :: nat

type_synonym 'l Manager = "(string \<times> 'l ControllerParams) list"

text \<open>Modelled from the spec: the Background Task Manager (pkg/controller is not under src/),
  whose interface is \<open>updateOrCreateTask(name, runFunction, interval)\<close>,
  \<open>removeTaskAndWait(name)\<close> and \<open>removeAllTasksAndWait()\<close>, running "named, updatable,
  cancelable periodic tasks". The registry is the list of the named tasks.\<close>

definition NewManager :: "'l Manager" where
  "NewManager = []"

definition UpdateController :: "string \<Rightarrow> 'l ControllerParams \<Rightarrow> 'l Manager \<Rightarrow> 'l Manager" where
  "UpdateController name params m =
     (if name \<in> fst ` set m
      then map (\<lambda>(n, p). if n = name then (n, params) else (n, p)) m
      else m @ [(name, params)])"

definition RemoveControllerAndWait :: "string \<Rightarrow> 'l Manager \<Rightarrow> 'l Manager" where
  "RemoveControllerAndWait name m = filter (\<lambda>(n, p). n \<noteq> name) m"

definition RemoveAllAndWait :: "'l Manager \<Rightarrow> 'l Manager" where
  "RemoveAllAndWait m = []"

subsection \<open>The name of a keep-alive controller\<close>

text \<open>fmt.Sprintf("sync-identity (%d)", id): the decimal digits of the identity.\<close>

definition digitChar :: "nat \<Rightarrow> char" where
  "digitChar d = ''0123456789'' ! d"

fun decimal :: "nat \<Rightarrow> string" where
  "decimal n = (if n < 10 then [digitChar n] else decimal (n div 10) @ [digitChar (n mod 10)])"

declare decimal.simps [simp del]

definition controllerName :: "ID \<Rightarrow> string" where
  "controllerName i = ''sync-identity ('' @ decimal (unat i) @ '')''"

subsection \<open>The package-level variables\<close>

text \<open>
  \<open>identityAllocatorInitialized\<close> is a channel that is only ever closed or replaced:
  the field says whether the current channel is closed. A pointer that may be nil is an
  option, and so is the map \<open>idPoolRefCount\<close>, which is nil until it is first assigned.
  \<open>wellKnown\<close> says whether identity.InitWellKnownIdentities has run (the reserved-identity
  lookups read the table it fills). \<open>selectChoices\<close> resolves Go's random choice in a select
  with two ready cases: each such select consumes one entry (True: the ctx.Done() case).
  \<open>trace\<close> collects the effects, oldest first.
\<close>

record ('l, 'b, 'c) state =
  IdentityAllocator :: "'b option"
  identityAllocatorInitialized :: bool
  localIdentities :: "'c option"
  identityControllerManager :: "'l Manager option"
  idPoolRefCount :: "(ID \<rightharpoonup> 64 word) option"
  wellKnown :: bool
  selectChoices :: "bool list"
  trace :: "'l event list"

text \<open>The collaborators. The first argument of the two reserved-identity lookups is
  \<open>wellKnown\<close>.\<close>

record ('l, 'b, 'c) env =
  labels_String :: "'l \<Rightarrow> string"
  LookupReservedIdentityByLabels :: "bool \<Rightarrow> 'l \<Rightarrow> 'l Identity option"
  RequiresGlobalIdentity :: "'l \<Rightarrow> bool"
  IsReserved :: "bool \<Rightarrow> 'l Identity \<Rightarrow> bool"
  newLocalIdentityCache :: "'c"
  local_lookupOrCreate :: "'l \<Rightarrow> 'c \<Rightarrow> ('l Identity option \<times> bool \<times> error option) \<times> 'c"
  local_release :: "'l Identity \<Rightarrow> 'c \<Rightarrow> bool \<times> 'c"
  allocator_NewAllocator :: "string \<Rightarrow> error + 'b"
  allocator_WaitForInitialSync :: "Context \<Rightarrow> 'b \<Rightarrow> error option"
  allocator_Allocate :: "Context \<Rightarrow> 'l \<Rightarrow> 'b \<Rightarrow> (error + ID \<times> bool) \<times> 'b"
  allocator_Release :: "Context \<Rightarrow> 'l \<Rightarrow> 'b \<Rightarrow> (error + bool) \<times> 'b"

definition emit :: "'l event \<Rightarrow> ('l, 'b, 'c) state \<Rightarrow> ('l, 'b, 'c) state" where
  "emit e s = s\<lparr>trace := trace s @ [e]\<rparr>"

text \<open>Reading a Go map: the zero value for an absent key, and for every key of a nil map.\<close>

definition refCount :: "('l, 'b, 'c) state \<Rightarrow> ID \<Rightarrow> 64 word" where
  "refCount s i =
     (case idPoolRefCount s of
        None \<Rightarrow> 0
      | Some m \<Rightarrow> (case m i of None \<Rightarrow> 0 | Some n \<Rightarrow> n))"

text \<open>The state of the process when it starts.\<close>

definition initialState :: "bool list \<Rightarrow> ('l, 'b, 'c) state" where
  "initialState choices =
     \<lparr>IdentityAllocator = None, identityAllocatorInitialized = False,
      localIdentities = None, identityControllerManager = None,
      idPoolRefCount = None, wellKnown = False,
      selectChoices = choices, trace = []\<rparr>"

subsection \<open>InitIdentityAllocator and Close\<close>

text \<open>
  InitIdentityAllocator (lines 97-135). setupMutex is released by a deferred call, which
  runs when the function returns or panics, and does not run when log.Fatal exits the
  process. close() of an already closed channel panics.
\<close>

definition InitIdentityAllocator ::
  "('l, 'b, 'c) env \<Rightarrow> IdentityAllocatorOwner \<Rightarrow> ('l, 'b, 'c) state
     \<Rightarrow> unit outcome \<times> ('l, 'b, 'c) state" where
  "InitIdentityAllocator E owner s0 =
     (let s1 = emit (Lock setupMutex) s0 in
      if IdentityAllocator s1 \<noteq> None then
        (Panics ''InitIdentityAllocator() in succession without calling Close()'',
         emit (Unlock setupMutex)
           (emit (Log Panic [] ''InitIdentityAllocator() in succession without calling Close()'') s1))
      else
        let s2 = emit InitWellKnownIdentities (s1\<lparr>wellKnown := True\<rparr>);
            s3 = emit (Log Info [] ''Initializing identity allocator'') s2;
            s4 = emit Watcher_watch s3;
            s5 = emit (Allocator_NewAllocator (GetNodeSuffix owner)) s4
        in
        case allocator_NewAllocator E (GetNodeSuffix owner) of
          Inl err \<Rightarrow>
            (Exits ''Unable to initialize identity allocator'',
             emit (Log Fatal [F_error err] ''Unable to initialize identity allocator'') s5)
        | Inr a \<Rightarrow>
            let s6 = emit Controller_NewManager (s5\<lparr>identityControllerManager := Some NewManager\<rparr>);
                s7 = emit RefCount_make (s6\<lparr>idPoolRefCount := Some Map.empty\<rparr>);
                s8 = emit Assign_IdentityAllocator (s7\<lparr>IdentityAllocator := Some a\<rparr>)
            in
            if identityAllocatorInitialized s8 then
              (Panics ''close of closed channel'', emit (Unlock setupMutex) s8)
            else
              let s9 = emit Chan_close (s8\<lparr>identityAllocatorInitialized := True\<rparr>);
                  s10 = emit Local_newLocalIdentityCache
                          (s9\<lparr>localIdentities := Some (newLocalIdentityCache E)\<rparr>)
              in (Returns (), emit (Unlock setupMutex) s10))"

text \<open>
  Close (lines 139-162). The select has a default case, so it never blocks: the nil check
  runs only when the channel is not closed. A method called through a nil manager or a nil
  allocator handle dereferences nil and panics.
\<close>

definition Close :: "('l, 'b, 'c) state \<Rightarrow> unit outcome \<times> ('l, 'b, 'c) state" where
  "Close s0 =
     (let s1 = emit (Lock setupMutex) s0 in
      if \<not> identityAllocatorInitialized s1 \<and> IdentityAllocator s1 = None then
        (Panics ''Close() called without calling InitIdentityAllocator() first'',
         emit (Unlock setupMutex)
           (emit (Log Panic [] ''Close() called without calling InitIdentityAllocator() first'') s1))
      else
        let s2 = emit (Lock identityRefCountMutex) s1;
            s3 = emit RefCount_make (s2\<lparr>idPoolRefCount := Some Map.empty\<rparr>)
        in
        case identityControllerManager s3 of
          None \<Rightarrow> (Panics ''nil pointer dereference'', emit (Unlock setupMutex) s3)
        | Some m \<Rightarrow>
            let s4 = emit Controller_RemoveAllAndWait
                       (s3\<lparr>identityControllerManager := Some (RemoveAllAndWait m)\<rparr>);
                s5 = emit (Unlock identityRefCountMutex) s4
            in
            case IdentityAllocator s5 of
              None \<Rightarrow> (Panics ''nil pointer dereference'', emit (Unlock setupMutex) s5)
            | Some a \<Rightarrow>
                let s6 = emit Allocator_Delete s5;
                    s7 = emit Watcher_stop s6;
                    s8 = emit Assign_IdentityAllocator (s7\<lparr>IdentityAllocator := None\<rparr>);
                    s9 = emit Chan_make (s8\<lparr>identityAllocatorInitialized := False\<rparr>);
                    s10 = s9\<lparr>localIdentities := None\<rparr>
                in (Returns (), emit (Unlock setupMutex) s10))"

subsection \<open>WaitForInitialIdentities\<close>

text \<open>
  Lines 166-174. The select blocks while neither case is ready; when both are, Go picks one
  at random, here the next entry of \<open>selectChoices\<close> (an empty list picks the channel).
\<close>

definition WaitForInitialIdentities ::
  "('l, 'b, 'c) env \<Rightarrow> Context \<Rightarrow> ('l, 'b, 'c) state
     \<Rightarrow> error option outcome \<times> ('l, 'b, 'c) state" where
  "WaitForInitialIdentities E ctx s0 =
     (if \<not> identityAllocatorInitialized s0 \<and> \<not> ctxDone ctx then (Blocks, s0)
      else
        let (pickDone, s1) =
              (if identityAllocatorInitialized s0 \<and> ctxDone ctx then
                 (case selectChoices s0 of
                    [] \<Rightarrow> (False, s0)
                  | b # bs \<Rightarrow> (b, s0\<lparr>selectChoices := bs\<rparr>))
               else (ctxDone ctx, s0))
        in
        if pickDone then
          (Returns (Some (''initial identity sync was cancelled: '' @ ctxErr ctx)), s1)
        else
          case IdentityAllocator s1 of
            None \<Rightarrow> (Panics ''nil pointer dereference'', s1)
          | Some a \<Rightarrow>
              (Returns (allocator_WaitForInitialSync E ctx a), emit Allocator_WaitForInitialSync s1))"

subsection \<open>IdentityAllocationIsLocal, AllocateIdentity\<close>

definition IdentityAllocationIsLocal ::
  "('l, 'b, 'c) env \<Rightarrow> 'l \<Rightarrow> ('l, 'b, 'c) state \<Rightarrow> bool" where
  "IdentityAllocationIsLocal E lbls s =
     (LookupReservedIdentityByLabels E (wellKnown s) lbls \<noteq> None)"

text \<open>Sequencing: the rest of a function runs when the call returns; a call that panics,
  exits or blocks ends the caller the same way.\<close>

definition andThen ::
  "'a outcome \<times> 's \<Rightarrow> ('a \<Rightarrow> 's \<Rightarrow> 'r outcome \<times> 's) \<Rightarrow> 'r outcome \<times> 's" where
  "andThen r f =
     (case r of
        (Returns x, s) \<Rightarrow> f x s
      | (Panics msg, s) \<Rightarrow> (Panics msg, s)
      | (Exits msg, s) \<Rightarrow> (Exits msg, s)
      | (Blocks, s) \<Rightarrow> (Blocks, s))"

text \<open>
  Lines 225-252 of AllocateIdentity, the block under identityRefCountMutex, for the identity
  \<open>i\<close> the backend returned: the controller is created or updated when the count read is
  zero, then the count is incremented (a uint: the addition wraps). The mutex is released
  by a plain call, which a panic skips.
\<close>

definition lockedIncrement ::
  "'l \<Rightarrow> ID \<Rightarrow> ('l, 'b, 'c) state \<Rightarrow> unit outcome \<times> ('l, 'b, 'c) state" where
  "lockedIncrement lbls i s3 =
     (let s4 = emit (Lock identityRefCountMutex) s3;
          refCountNew = (refCount s4 i = 0)
      in
      andThen
        (if refCountNew then
           (case identityControllerManager s4 of
              None \<Rightarrow> (Panics ''nil pointer dereference'', s4)
            | Some m \<Rightarrow>
                (Returns (),
                 emit (Controller_UpdateController (controllerName i))
                   (s4\<lparr>identityControllerManager :=
                          Some (UpdateController (controllerName i)
                                  \<lparr>DoFunc = lbls, RunInterval = 1000000\<rparr> m)\<rparr>)))
         else (Returns (), s4))
        (\<lambda>_ s5.
           case idPoolRefCount s5 of
             None \<Rightarrow> (Panics ''assignment to entry in nil map'', s5)
           | Some m \<Rightarrow>
               let s6 = emit (RefCount_incr i)
                          (s5\<lparr>idPoolRefCount := Some (m(i \<mapsto> refCount s5 i + 1))\<rparr>)
               in (Returns (), emit (Unlock identityRefCountMutex) s6)))"

text \<open>
  AllocateIdentity (lines 192-261). The value WaitForInitialIdentities returns is dropped
  (line 214): only a call that does not return ends AllocateIdentity there.
  The result is the triple (*identity.Identity, bool, error).
\<close>

definition AllocateIdentity ::
  "('l, 'b, 'c) env \<Rightarrow> Context \<Rightarrow> 'l \<Rightarrow> ('l, 'b, 'c) state
     \<Rightarrow> ('l Identity option \<times> bool \<times> error option) outcome \<times> ('l, 'b, 'c) state" where
  "AllocateIdentity E ctx lbls s0 =
     (let s1 = emit (Log Debug [F_IdentityLabels (labels_String E lbls)] ''Resolving identity'') s0 in
      case LookupReservedIdentityByLabels E (wellKnown s1) lbls of
        Some reservedIdentity \<Rightarrow>
          (Returns (Some reservedIdentity, False, None),
           emit (Log Debug [F_NumericIdentity (ID reservedIdentity),
                            F_IdentityLabels (labels_String E lbls), F_isNew False]
                   ''Resolved reserved identity'') s1)
      | None \<Rightarrow>
          (case (if \<not> RequiresGlobalIdentity E lbls then localIdentities s1 else None) of
             Some c \<Rightarrow>
               (case local_lookupOrCreate E lbls c of
                  (r, c') \<Rightarrow>
                    (Returns r, emit (Local_lookupOrCreate lbls) (s1\<lparr>localIdentities := Some c'\<rparr>)))
           | None \<Rightarrow>
               andThen (WaitForInitialIdentities E ctx s1)
                 (\<lambda>_ s2.
                    case IdentityAllocator s2 of
                      None \<Rightarrow> (Returns (None, False, Some ''allocator not initialized''), s2)
                    | Some a \<Rightarrow>
                        (case allocator_Allocate E ctx lbls a of
                           (Inl err, a') \<Rightarrow>
                             (Returns (None, False, Some err),
                              emit (Allocator_Allocate lbls) (s2\<lparr>IdentityAllocator := Some a'\<rparr>))
                         | (Inr (i, isNew), a') \<Rightarrow>
                             andThen
                               (lockedIncrement lbls i
                                  (emit (Allocator_Allocate lbls) (s2\<lparr>IdentityAllocator := Some a'\<rparr>)))
                               (\<lambda>_ s7.
                                  (Returns (Some \<lparr>ID = ucast i, Labels = lbls\<rparr>, isNew, None),
                                   emit (Log Debug [F_ID i, F_IdentityLabels (labels_String E lbls),
                                                    F_isNew isNew] ''Resolved identity'') s7))))))"

subsection \<open>Release, ReleaseSlice\<close>

text \<open>
  Lines 292-302 of Release, the block under identityRefCountMutex, for the identity \<open>idty\<close>:
  nothing is written unless the count read is positive; the controller is removed when it
  is 1; then the count is decremented.
\<close>

definition lockedDecrement ::
  "ID \<Rightarrow> ('l, 'b, 'c) state \<Rightarrow> unit outcome \<times> ('l, 'b, 'c) state" where
  "lockedDecrement idty s3 =
     (let s4 = emit (Lock identityRefCountMutex) s3;
          refCnt = refCount s4 idty
      in
      if refCnt > 0 then
        andThen
          (if refCnt = 1 then
             (case identityControllerManager s4 of
                None \<Rightarrow> (Panics ''nil pointer dereference'', s4)
              | Some m \<Rightarrow>
                  (Returns (),
                   emit (Controller_RemoveControllerAndWait (controllerName idty))
                     (s4\<lparr>identityControllerManager :=
                            Some (RemoveControllerAndWait (controllerName idty) m)\<rparr>)))
           else (Returns (), s4))
          (\<lambda>_ s5.
             case idPoolRefCount s5 of
               None \<Rightarrow> (Panics ''assignment to entry in nil map'', s5)
             | Some m \<Rightarrow>
                 let s6 = emit (RefCount_decr idty)
                            (s5\<lparr>idPoolRefCount := Some (m(idty \<mapsto> refCount s5 idty - 1))\<rparr>)
                 in (Returns (), emit (Unlock identityRefCountMutex) s6))
      else (Returns (), emit (Unlock identityRefCountMutex) s4))"

text \<open>
  Release (lines 266-305), for a non-nil identity \<open>idp\<close> (the source's \<open>id\<close>); the result
  is the pair (bool, error). As in AllocateIdentity, the value of WaitForInitialIdentities
  is dropped (line 279).
\<close>

definition Release ::
  "('l, 'b, 'c) env \<Rightarrow> Context \<Rightarrow> 'l Identity \<Rightarrow> ('l, 'b, 'c) state
     \<Rightarrow> (bool \<times> error option) outcome \<times> ('l, 'b, 'c) state" where
  "Release E ctx idp s0 =
     (if IsReserved E (wellKnown s0) idp then (Returns (False, None), s0)
      else
        case (if \<not> RequiresGlobalIdentity E (Labels idp) then localIdentities s0 else None) of
          Some c \<Rightarrow>
            (case local_release E idp c of
               (released, c') \<Rightarrow>
                 (Returns (released, None), emit (Local_release idp) (s0\<lparr>localIdentities := Some c'\<rparr>)))
        | None \<Rightarrow>
            andThen (WaitForInitialIdentities E ctx s0)
              (\<lambda>_ s2.
                 case IdentityAllocator s2 of
                   None \<Rightarrow> (Returns (False, Some ''allocator not initialized''), s2)
                 | Some a \<Rightarrow>
                     (case allocator_Release E ctx (Labels idp) a of
                        (Inl err, a') \<Rightarrow>
                          (Returns (False, Some err),
                           emit (Allocator_Release (Labels idp)) (s2\<lparr>IdentityAllocator := Some a'\<rparr>))
                      | (Inr lastUse, a') \<Rightarrow>
                          andThen
                            (lockedDecrement (ucast (ID idp))
                               (emit (Allocator_Release (Labels idp)) (s2\<lparr>IdentityAllocator := Some a'\<rparr>)))
                            (\<lambda>_ s7. (Returns (lastUse, None), s7)))))"

text \<open>
  ReleaseSlice (lines 311-325): the loop over the slice, with the variable \<open>err\<close> as an
  argument. An element of the slice is a pointer, nil or not. A Release that does not
  return ends the loop with it.
\<close>

fun ReleaseSlice_loop ::
  "('l, 'b, 'c) env \<Rightarrow> Context \<Rightarrow> error option \<Rightarrow> 'l Identity option list
     \<Rightarrow> ('l, 'b, 'c) state \<Rightarrow> error option outcome \<times> ('l, 'b, 'c) state" where
  "ReleaseSlice_loop E ctx err [] s = (Returns err, s)"
| "ReleaseSlice_loop E ctx err (None # identities) s = ReleaseSlice_loop E ctx err identities s"
| "ReleaseSlice_loop E ctx err (Some idp # identities) s =
     andThen (Release E ctx idp s)
       (\<lambda>r s'. case snd r of
                  Some err2 \<Rightarrow>
                    ReleaseSlice_loop E ctx (Some err2) identities
                      (emit (Log Error [F_error err2, F_IdentityPtr idp] ''Failed to release identity'') s')
                | None \<Rightarrow> ReleaseSlice_loop E ctx err identities s')"

definition ReleaseSlice ::
  "('l, 'b, 'c) env \<Rightarrow> Context \<Rightarrow> 'l Identity option list
     \<Rightarrow> ('l, 'b, 'c) state \<Rightarrow> error option outcome \<times> ('l, 'b, 'c) state" where
  "ReleaseSlice E ctx identities s = ReleaseSlice_loop E ctx None identities s"

subsection \<open>Reading the trace\<close>

text \<open>The effects a call added: the part of the trace after the one it started from.\<close>

definition emitted :: "('l, 'b, 'c) state \<Rightarrow> ('l, 'b, 'c) state \<Rightarrow> 'l event list" where
  "emitted s s' = drop (length (trace s)) (trace s')"

text \<open>The calls into the distributed backend, the changes of the reference-count table and
  of the set of keep-alive controllers, the calls into the local identity cache, and the
  log lines.\<close>

fun isBackendCall :: "'l event \<Rightarrow> bool" where
  "isBackendCall (Allocator_NewAllocator _) = True"
| "isBackendCall (Allocator_Allocate _) = True"
| "isBackendCall (Allocator_Release _) = True"
| "isBackendCall Allocator_WaitForInitialSync = True"
| "isBackendCall Allocator_Delete = True"
| "isBackendCall _ = False"

fun isRefCounting :: "'l event \<Rightarrow> bool" where
  "isRefCounting RefCount_make = True"
| "isRefCounting (RefCount_incr _) = True"
| "isRefCounting (RefCount_decr _) = True"
| "isRefCounting (Controller_UpdateController _) = True"
| "isRefCounting (Controller_RemoveControllerAndWait _) = True"
| "isRefCounting Controller_RemoveAllAndWait = True"
| "isRefCounting _ = False"

fun isLog :: "'l event \<Rightarrow> bool" where
  "isLog (Log _ _ _) = True"
| "isLog _ = False"

subsection \<open>A test double\<close>

text \<open>
  Collaborators to run the model on: label sets are strings; \<open>reserved:host\<close> is the one
  reserved label set, with identity 1; label sets starting with \<open>cidr:\<close> are the local ones;
  the backend counts its calls, hands out identity 256 and fails for the label set
  \<open>k8s:fail\<close>; the local cache counts its calls and hands out identity 16777216.
\<close>

definition testEnv :: "(string, nat, nat) env" where
  "testEnv =
     \<lparr>labels_String = (\<lambda>l. l),
      LookupReservedIdentityByLabels =
        (\<lambda>wk l. if l = ''reserved:host'' then Some \<lparr>ID = 1, Labels = l\<rparr> else None),
      RequiresGlobalIdentity = (\<lambda>l. take 5 l \<noteq> ''cidr:''),
      IsReserved = (\<lambda>wk i. ID i < 256),
      newLocalIdentityCache = 0,
      local_lookupOrCreate = (\<lambda>l c. ((Some \<lparr>ID = 16777216, Labels = l\<rparr>, c = 0, None), c + 1)),
      local_release = (\<lambda>i c. (c = 1, c - 1)),
      allocator_NewAllocator = (\<lambda>suffix. Inr 0),
      allocator_WaitForInitialSync =
        (\<lambda>ctx a. if ctxDone ctx then Some (''context error: '' @ ctxErr ctx) else None),
      allocator_Allocate =
        (\<lambda>ctx l a. if l = ''k8s:fail'' then (Inl ''kvstore unreachable'', a + 1)
                   else (Inr (256, a = 0), a + 1)),
      allocator_Release =
        (\<lambda>ctx l a. if l = ''k8s:fail'' then (Inl ''kvstore unreachable'', a + 1)
                   else (Inr (a = 1), a + 1))\<rparr>"

definition background :: Context where
  "background = \<lparr>ctxDone = False, ctxErr = []\<rparr>"

definition cancelled :: Context where
  "cancelled = \<lparr>ctxDone = True, ctxErr = ''context canceled''\<rparr>"

definition testOwner :: IdentityAllocatorOwner where
  "testOwner = \<lparr>GetNodeSuffix = ''node1''\<rparr>"

text \<open>The state of the test double after one InitIdentityAllocator.\<close>

definition startedState :: "(string, nat, nat) state" where
  "startedState = snd (InitIdentityAllocator testEnv testOwner (initialState []))"

subsection \<open>Histories\<close>

text \<open>A call of one of the exported functions.\<close>

datatype 'l call =
    Call_InitIdentityAllocator IdentityAllocatorOwner
  | Call_Close
  | Call_WaitForInitialIdentities Context
  | Call_AllocateIdentity Context 'l
  | Call_Release Context "'l Identity"
  | Call_ReleaseSlice Context "'l Identity option list"

text \<open>Whether the process goes on after the call (it does unless log.Fatal ended it), and
  the state the call leaves.\<close>

definition goesOn :: "'a outcome \<Rightarrow> bool" where
  "goesOn out = (case out of Exits _ \<Rightarrow> False | _ \<Rightarrow> True)"

fun perform ::
  "('l, 'b, 'c) env \<Rightarrow> 'l call \<Rightarrow> ('l, 'b, 'c) state \<Rightarrow> bool \<times> ('l, 'b, 'c) state" where
  "perform E (Call_InitIdentityAllocator owner) s =
     (case InitIdentityAllocator E owner s of (out, s') \<Rightarrow> (goesOn out, s'))"
| "perform E Call_Close s =
     (case Close s of (out, s') \<Rightarrow> (goesOn out, s'))"
| "perform E (Call_WaitForInitialIdentities ctx) s =
     (case WaitForInitialIdentities E ctx s of (out, s') \<Rightarrow> (goesOn out, s'))"
| "perform E (Call_AllocateIdentity ctx lbls) s =
     (case AllocateIdentity E ctx lbls s of (out, s') \<Rightarrow> (goesOn out, s'))"
| "perform E (Call_Release ctx idp) s =
     (case Release E ctx idp s of (out, s') \<Rightarrow> (goesOn out, s'))"
| "perform E (Call_ReleaseSlice ctx identities) s =
     (case ReleaseSlice E ctx identities s of (out, s') \<Rightarrow> (goesOn out, s'))"

text \<open>The states a process can be in between two calls: the initial one, and the one any call
  leaves when the process goes on.\<close>

inductive reachable :: "('l, 'b, 'c) env \<Rightarrow> ('l, 'b, 'c) state \<Rightarrow> bool"
  for E :: "('l, 'b, 'c) env" where
  start: "reachable E (initialState choices)"
| step: "reachable E s \<Longrightarrow> perform E c s = (True, s') \<Longrightarrow> reachable E s'"

text \<open>What every such state satisfies: the channel is closed exactly while an allocator is
  live, and so is the local cache present; a live allocator has a controller manager and a
  reference-count table; no two controllers have the same name.\<close>

definition consistent :: "('l, 'b, 'c) state \<Rightarrow> bool" where
  "consistent s =
     ((identityAllocatorInitialized s \<longleftrightarrow> IdentityAllocator s \<noteq> None) \<and>
      (localIdentities s \<noteq> None \<longleftrightarrow> IdentityAllocator s \<noteq> None) \<and>
      (IdentityAllocator s \<noteq> None \<longrightarrow>
         identityControllerManager s \<noteq> None \<and> idPoolRefCount s \<noteq> None) \<and>
      (case identityControllerManager s of None \<Rightarrow> True | Some m \<Rightarrow> distinct (map fst m)))"

text \<open>The number of keep-alive controllers registered for an identity.\<close>

definition keepAliveTasks :: "('l, 'b, 'c) state \<Rightarrow> ID \<Rightarrow> nat" where
  "keepAliveTasks s i =
     (case identityControllerManager s of
        None \<Rightarrow> 0
      | Some m \<Rightarrow> length (filter (\<lambda>(n, p). n = controllerName i) m))"

subsection \<open>Order and critical sections in a trace\<close>

text \<open>The effects of the readiness wait of a call.\<close>

definition waited ::
  "('l, 'b, 'c) env \<Rightarrow> Context \<Rightarrow> ('l, 'b, 'c) state \<Rightarrow> 'l event list" where
  "waited E ctx s = emitted s (snd (WaitForInitialIdentities E ctx s))"

text \<open>\<open>a\<close> occurs before the first occurrence of \<open>b\<close>.\<close>

definition precedes :: "'a \<Rightarrow> 'a \<Rightarrow> 'a list \<Rightarrow> bool" where
  "precedes a b xs = (b \<in> set xs \<and> a \<in> set (takeWhile (\<lambda>x. x \<noteq> b) xs))"

text \<open>The critical sections of a mutex in a trace, in order: the effects between each Lock
  of the mutex and the Unlock that follows it. The second argument is the section that is
  open, if one is.\<close>

fun criticalSections :: "mutex \<Rightarrow> 'l event list option \<Rightarrow> 'l event list \<Rightarrow> 'l event list list" where
  "criticalSections m None [] = []"
| "criticalSections m (Some cur) [] = [cur]"
| "criticalSections m None (e # es) =
     (if e = Lock m then criticalSections m (Some []) es else criticalSections m None es)"
| "criticalSections m (Some cur) (e # es) =
     (if e = Unlock m then cur # criticalSections m None es
      else criticalSections m (Some (cur @ [e])) es)"

text \<open>The effects of a trace that happen while the mutex is not held. The second argument
  says whether it is held at the start.\<close>

fun unprotected :: "mutex \<Rightarrow> bool \<Rightarrow> 'l event list \<Rightarrow> 'l event list" where
  "unprotected m held [] = []"
| "unprotected m held (e # es) =
     (if e = Lock m then unprotected m True es
      else if e = Unlock m then unprotected m False es
      else if held then unprotected m held es
      else e # unprotected m held es)"

subsection \<open>The effects of the locked block of Release, and of Release\<close>

definition decremented :: "ID \<Rightarrow> ('l, 'b, 'c) state \<Rightarrow> 'l event list" where
  "decremented i s = emitted s (snd (lockedDecrement i s))"

definition released ::
  "('l, 'b, 'c) env \<Rightarrow> Context \<Rightarrow> 'l Identity \<Rightarrow> ('l, 'b, 'c) state \<Rightarrow> 'l event list" where
  "released E ctx idp s = emitted s (snd (Release E ctx idp s))"

subsection \<open>ReleaseSlice, in the words of the spec\<close>

text \<open>
  The spec describes ReleaseSlice as a "best-effort release of a batch; continues past
  individual failures, logs each, returns the last error encountered". \<open>releaseEach\<close>
  releases every identity of a list in turn, each from the state the one before left, logs
  a release that returned an error, and collects how each call ended. \<open>failures\<close> are the
  calls that returned an error, \<open>lastError\<close> the error of the last of them, and \<open>nonNil\<close>
  the non-nil entries of a slice.
\<close>

fun releaseEach ::
  "('l, 'b, 'c) env \<Rightarrow> Context \<Rightarrow> 'l Identity list \<Rightarrow> ('l, 'b, 'c) state
     \<Rightarrow> ('l Identity \<times> (bool \<times> error option) outcome) list \<times> ('l, 'b, 'c) state" where
  "releaseEach E ctx [] s = ([], s)"
| "releaseEach E ctx (idp # ids) s =
     (let out = fst (Release E ctx idp s);
          s' = snd (Release E ctx idp s);
          s'' = (case out of
                   Returns (_, Some err2) \<Rightarrow>
                     emit (Log Error [F_error err2, F_IdentityPtr idp] ''Failed to release identity'') s'
                 | _ \<Rightarrow> s')
      in ((idp, out) # fst (releaseEach E ctx ids s''), snd (releaseEach E ctx ids s'')))"

fun failures ::
  "('l Identity \<times> (bool \<times> error option) outcome) list \<Rightarrow> ('l Identity \<times> error) list" where
  "failures [] = []"
| "failures ((idp, Returns (_, Some e)) # rs) = (idp, e) # failures rs"
| "failures (_ # rs) = failures rs"

definition lastError :: "('l Identity \<times> error) list \<Rightarrow> error option" where
  "lastError fs = (if fs = [] then None else Some (snd (last fs)))"

fun returned :: "'a outcome \<Rightarrow> bool" where
  "returned (Returns _) = True"
| "returned _ = False"

fun nonNil :: "'a option list \<Rightarrow> 'a list" where
  "nonNil [] = []"
| "nonNil (None # ps) = nonNil ps"
| "nonNil (Some x # ps) = x # nonNil ps"

definition failureLog :: "'l Identity \<times> error \<Rightarrow> 'l event" where
  "failureLog f = Log Error [F_error (snd f), F_IdentityPtr (fst f)] ''Failed to release identity''"

text \<open>A stretch of a trace with no reference-counting effect and no Lock or Unlock of
  identityRefCountMutex.\<close>

definition calm :: "'l event list \<Rightarrow> bool" where
  "calm es =
     list_all (\<lambda>e. \<not> isRefCounting e \<and> e \<noteq> Lock identityRefCountMutex \<and>
                   e \<noteq> Unlock identityRefCountMutex) es"

section \<open>Auxiliary facts\<close>

subsection \<open>The controller manager keeps names distinct\<close>

lemma distinct_UpdateController:
  "distinct (map fst m) \<Longrightarrow> distinct (map fst (UpdateController n p m))"
proof -
  have eq: "fst \<circ> (\<lambda>(k, q). if k = n then (k, p) else (k, q)) = fst"
    by (auto simp: fun_eq_iff)
  assume "distinct (map fst m)"
  then show ?thesis
    by (simp add: UpdateController_def eq image_iff)
qed

lemma distinct_RemoveControllerAndWait:
  "distinct (map fst m) \<Longrightarrow> distinct (map fst (RemoveControllerAndWait n m))"
  unfolding RemoveControllerAndWait_def by (simp add: distinct_map_filter)

subsection \<open>Sequencing, by outcome\<close>

lemma andThen_alt:
  "andThen r f =
     (case fst r of
        Returns x \<Rightarrow> f x (snd r)
      | Panics msg \<Rightarrow> (Panics msg, snd r)
      | Exits msg \<Rightarrow> (Exits msg, snd r)
      | Blocks \<Rightarrow> (Blocks, snd r))"
  by (cases r) (simp add: andThen_def split: outcome.splits)

subsection \<open>What WaitForInitialIdentities leaves alone\<close>

lemma Wait_frame [simp]:
  "IdentityAllocator (snd (WaitForInitialIdentities E ctx s)) = IdentityAllocator s"
  "identityAllocatorInitialized (snd (WaitForInitialIdentities E ctx s)) = identityAllocatorInitialized s"
  "localIdentities (snd (WaitForInitialIdentities E ctx s)) = localIdentities s"
  "identityControllerManager (snd (WaitForInitialIdentities E ctx s)) = identityControllerManager s"
  "idPoolRefCount (snd (WaitForInitialIdentities E ctx s)) = idPoolRefCount s"
  "wellKnown (snd (WaitForInitialIdentities E ctx s)) = wellKnown s"
  by (simp_all add: WaitForInitialIdentities_def emit_def Let_def split: option.splits list.splits)

lemma refCount_emit [simp]: "refCount (emit e s) = refCount s"
  by (simp add: refCount_def emit_def fun_eq_iff)

lemma refCount_Wait [simp]: "refCount (snd (WaitForInitialIdentities E ctx s)) = refCount s"
  by (simp add: refCount_def fun_eq_iff)

subsection \<open>Consistency is kept by every call\<close>

lemma consistent_frame:
  "IdentityAllocator s' = IdentityAllocator s \<Longrightarrow>
   identityAllocatorInitialized s' = identityAllocatorInitialized s \<Longrightarrow>
   (localIdentities s' = None \<longleftrightarrow> localIdentities s = None) \<Longrightarrow>
   identityControllerManager s' = identityControllerManager s \<Longrightarrow>
   (idPoolRefCount s' = None \<longleftrightarrow> idPoolRefCount s = None) \<Longrightarrow>
   consistent s' = consistent s"
  by (simp add: consistent_def)

lemma consistent_initialState: "consistent (initialState choices)"
  by (simp add: consistent_def initialState_def)

lemma consistent_emit [simp]: "consistent (emit e s) = consistent s"
  by (simp add: consistent_def emit_def)

lemma consistent_Wait [simp]:
  "consistent (snd (WaitForInitialIdentities E ctx s)) = consistent s"
  by (rule consistent_frame) simp_all

lemma consistent_IdentityAllocator_update [simp]:
  "IdentityAllocator s \<noteq> None \<Longrightarrow> consistent (s\<lparr>IdentityAllocator := Some a\<rparr>) = consistent s"
  by (auto simp: consistent_def)

lemma consistent_localIdentities_update [simp]:
  "localIdentities s \<noteq> None \<Longrightarrow> consistent (s\<lparr>localIdentities := Some c\<rparr>) = consistent s"
  by (auto simp: consistent_def)

lemma consistent_Init:
  "consistent s \<Longrightarrow> consistent (snd (InitIdentityAllocator E owner s))"
  by (simp add: consistent_def InitIdentityAllocator_def emit_def Let_def NewManager_def
           split: sum.splits)

lemma consistent_Close:
  "consistent s \<Longrightarrow> consistent (snd (Close s))"
  by (simp add: consistent_def Close_def emit_def Let_def RemoveAllAndWait_def
           split: option.splits)

lemma consistent_lockedIncrement:
  "consistent s \<Longrightarrow> consistent (snd (lockedIncrement lbls i s))"
  unfolding lockedIncrement_def Let_def andThen_alt
  by (auto simp: consistent_def emit_def distinct_UpdateController split: option.splits)

lemma consistent_lockedDecrement:
  "consistent s \<Longrightarrow> consistent (snd (lockedDecrement i s))"
  unfolding lockedDecrement_def Let_def andThen_alt
  by (auto simp: consistent_def emit_def distinct_RemoveControllerAndWait split: option.splits)

lemma consistent_AllocateIdentity:
  "consistent s \<Longrightarrow> consistent (snd (AllocateIdentity E ctx lbls s))"
  unfolding AllocateIdentity_def Let_def andThen_alt
  by (simp add: consistent_lockedIncrement
           split: option.splits prod.splits sum.splits outcome.splits)

lemma consistent_Release:
  "consistent s \<Longrightarrow> consistent (snd (Release E ctx idp s))"
  unfolding Release_def Let_def andThen_alt
  by (simp add: consistent_lockedDecrement
           split: option.splits prod.splits sum.splits outcome.splits)

lemma consistent_ReleaseSlice_loop:
  "consistent s \<Longrightarrow> consistent (snd (ReleaseSlice_loop E ctx err identities s))"
proof (induction E ctx err identities s rule: ReleaseSlice_loop.induct)
  case (1 E ctx err s)
  then show ?case by simp
next
  case (2 E ctx err identities s)
  then show ?case by simp
next
  case (3 E ctx err idp identities s)
  have c: "consistent (snd (Release E ctx idp s))"
    using "3.prems" by (rule consistent_Release)
  show ?case
  proof (cases "fst (Release E ctx idp s)")
    case (Returns r)
    show ?thesis
    proof (cases "snd r")
      case None
      then show ?thesis
        using Returns c "3.IH" by (simp add: andThen_alt)
    next
      case (Some err2)
      then show ?thesis
        using Returns c "3.IH" by (simp add: andThen_alt)
    qed
  qed (simp_all add: andThen_alt c)
qed

lemma snd_perform:
  "snd (perform E c s) =
     (case c of
        Call_InitIdentityAllocator owner \<Rightarrow> snd (InitIdentityAllocator E owner s)
      | Call_Close \<Rightarrow> snd (Close s)
      | Call_WaitForInitialIdentities ctx \<Rightarrow> snd (WaitForInitialIdentities E ctx s)
      | Call_AllocateIdentity ctx lbls \<Rightarrow> snd (AllocateIdentity E ctx lbls s)
      | Call_Release ctx idp \<Rightarrow> snd (Release E ctx idp s)
      | Call_ReleaseSlice ctx identities \<Rightarrow> snd (ReleaseSlice E ctx identities s))"
  by (cases c) (simp_all split: prod.splits)

lemma consistent_perform:
  "consistent s \<Longrightarrow> consistent (snd (perform E c s))"
  by (simp add: snd_perform consistent_Init consistent_Close consistent_AllocateIdentity
        consistent_Release consistent_ReleaseSlice_loop ReleaseSlice_def split: call.splits)

lemma reachable_consistent: "reachable E s \<Longrightarrow> consistent s"
proof (induction rule: reachable.induct)
  case (start choices)
  show ?case by (rule consistent_initialState)
next
  case (step s c s')
  then show ?case using consistent_perform [of s E c] by simp
qed

subsection \<open>The test double after InitIdentityAllocator\<close>

lemma startedState_eq:
  "startedState =
     \<lparr>IdentityAllocator = Some 0, identityAllocatorInitialized = True,
      localIdentities = Some 0, identityControllerManager = Some [],
      idPoolRefCount = Some Map.empty, wellKnown = True, selectChoices = [],
      trace = [Lock setupMutex, InitWellKnownIdentities,
               Log Info [] ''Initializing identity allocator'', Watcher_watch,
               Allocator_NewAllocator ''node1'', Controller_NewManager, RefCount_make,
               Assign_IdentityAllocator, Chan_close, Local_newLocalIdentityCache,
               Unlock setupMutex]\<rparr>"
  by (simp add: startedState_def InitIdentityAllocator_def testEnv_def testOwner_def
        initialState_def emit_def Let_def NewManager_def)

lemma reachable_startedState: "reachable testEnv startedState"
proof -
  have "perform testEnv (Call_InitIdentityAllocator testOwner) (initialState []) = (True, startedState)"
    by (simp add: startedState_def InitIdentityAllocator_def testEnv_def testOwner_def
          initialState_def emit_def Let_def NewManager_def goesOn_def)
  then show ?thesis
    using reachable.step [OF reachable.start] by blast
qed

section \<open>Allocation\<close>

subsection \<open>Reserved label sets\<close>

text \<open>
  Claim C5. For every label set for which LookupReservedIdentityByLabels finds a reserved
  identity, AllocateIdentity returns that identity with isNew = false and a nil error. The
  state it leaves differs from the one it started in by two debug log lines only: no call
  into the backend, no change of the reference-count table or of the controllers. Nothing
  is assumed of the state, so this holds before InitIdentityAllocator, after it and after
  Close.
\<close>

theorem AllocateIdentity_reserved:
  assumes "LookupReservedIdentityByLabels E (wellKnown s) lbls = Some reservedIdentity"
  shows "AllocateIdentity E ctx lbls s =
           (Returns (Some reservedIdentity, False, None),
            s\<lparr>trace := trace s @
               [Log Debug [F_IdentityLabels (labels_String E lbls)] ''Resolving identity'',
                Log Debug [F_NumericIdentity (ID reservedIdentity),
                           F_IdentityLabels (labels_String E lbls), F_isNew False]
                  ''Resolved reserved identity'']\<rparr>) \<and>
         filter isBackendCall (emitted s (snd (AllocateIdentity E ctx lbls s))) = [] \<and>
         filter isRefCounting (emitted s (snd (AllocateIdentity E ctx lbls s))) = []"
  using assms by (simp add: AllocateIdentity_def emit_def Let_def emitted_def)

theorem AllocateIdentity_reserved_witness:
  "LookupReservedIdentityByLabels testEnv (wellKnown (initialState [] :: (string, nat, nat) state))
     ''reserved:host'' = Some \<lparr>ID = 1, Labels = ''reserved:host''\<rparr> \<and>
   fst (AllocateIdentity testEnv background ''reserved:host'' (initialState [])) =
     Returns (Some \<lparr>ID = 1, Labels = ''reserved:host''\<rparr>, False, None) \<and>
   IdentityAllocator (snd (AllocateIdentity testEnv background ''reserved:host'' (initialState []))) = None"
proof -
  have h: "LookupReservedIdentityByLabels testEnv (wellKnown (initialState [] :: (string, nat, nat) state))
     ''reserved:host'' = Some \<lparr>ID = 1, Labels = ''reserved:host''\<rparr>"
    by (simp add: testEnv_def)
  show ?thesis
    using h AllocateIdentity_reserved [OF h, of background]
    by (simp add: initialState_def)
qed

subsection \<open>Local label sets\<close>

text \<open>
  Claim C2, as the spec has it, says that a label set that is not reserved and does not
  require a global identity is always handed to the local cache, "regardless of whether the
  allocator has been initialized". Line 208 tests \<open>localIdentities != nil\<close> as well. In the
  initial state, where there is no local cache, the call for the local label set
  \<open>cidr:10.0.0.0/8\<close> does not reach lookupOrCreate: with a cancelled context it returns the
  error "allocator not initialized", and with a live context it blocks.
\<close>

theorem AllocateIdentity_local_uninitialized_counterexample:
  "LookupReservedIdentityByLabels testEnv (wellKnown (initialState [] :: (string, nat, nat) state))
     ''cidr:10.0.0.0/8'' = None \<and>
   \<not> RequiresGlobalIdentity testEnv ''cidr:10.0.0.0/8'' \<and>
   fst (AllocateIdentity testEnv cancelled ''cidr:10.0.0.0/8'' (initialState [])) =
     Returns (None, False, Some ''allocator not initialized'') \<and>
   fst (AllocateIdentity testEnv cancelled ''cidr:10.0.0.0/8'' (initialState [])) \<noteq>
     Returns (fst (local_lookupOrCreate testEnv ''cidr:10.0.0.0/8'' (newLocalIdentityCache testEnv))) \<and>
   emitted (initialState []) (snd (AllocateIdentity testEnv cancelled ''cidr:10.0.0.0/8'' (initialState []))) =
     [Log Debug [F_IdentityLabels ''cidr:10.0.0.0/8''] ''Resolving identity''] \<and>
   fst (AllocateIdentity testEnv background ''cidr:10.0.0.0/8'' (initialState [])) = Blocks"
  by (simp add: AllocateIdentity_def WaitForInitialIdentities_def andThen_def testEnv_def
        cancelled_def background_def initialState_def emit_def emitted_def Let_def)

text \<open>
  Claim C2, amended. For every label set that is not reserved and does not require a global
  identity, and every state in which the local identity cache exists, AllocateIdentity
  returns the result of the cache's lookupOrCreate unchanged, leaves the cache as
  lookupOrCreate left it, and makes no call into the backend.
\<close>

theorem AllocateIdentity_local:
  assumes "LookupReservedIdentityByLabels E (wellKnown s) lbls = None"
    and "\<not> RequiresGlobalIdentity E lbls"
    and "localIdentities s = Some c"
  shows "AllocateIdentity E ctx lbls s =
           (Returns (fst (local_lookupOrCreate E lbls c)),
            s\<lparr>localIdentities := Some (snd (local_lookupOrCreate E lbls c)),
              trace := trace s @
               [Log Debug [F_IdentityLabels (labels_String E lbls)] ''Resolving identity'',
                Local_lookupOrCreate lbls]\<rparr>) \<and>
         filter isBackendCall (emitted s (snd (AllocateIdentity E ctx lbls s))) = []"
  using assms by (simp add: AllocateIdentity_def emit_def Let_def emitted_def split: prod.splits)

theorem AllocateIdentity_local_witness:
  "LookupReservedIdentityByLabels testEnv (wellKnown startedState) ''cidr:10.0.0.0/8'' = None \<and>
   \<not> RequiresGlobalIdentity testEnv ''cidr:10.0.0.0/8'' \<and>
   localIdentities startedState = Some 0 \<and>
   fst (AllocateIdentity testEnv background ''cidr:10.0.0.0/8'' startedState) =
     Returns (Some \<lparr>ID = 16777216, Labels = ''cidr:10.0.0.0/8''\<rparr>, True, None)"
proof -
  have h1: "LookupReservedIdentityByLabels testEnv (wellKnown startedState) ''cidr:10.0.0.0/8'' = None"
    by (simp add: testEnv_def)
  have h2: "\<not> RequiresGlobalIdentity testEnv ''cidr:10.0.0.0/8''"
    by (simp add: testEnv_def)
  have h3: "localIdentities startedState = Some 0"
    by (simp add: startedState_eq)
  show ?thesis
    using h1 h2 h3 AllocateIdentity_local [OF h1 h2 h3, of background]
    by (simp add: testEnv_def)
qed

subsection \<open>Effects of the readiness wait\<close>

lemma emit_fields [simp]:
  "IdentityAllocator (emit e s) = IdentityAllocator s"
  "identityAllocatorInitialized (emit e s) = identityAllocatorInitialized s"
  "localIdentities (emit e s) = localIdentities s"
  "identityControllerManager (emit e s) = identityControllerManager s"
  "idPoolRefCount (emit e s) = idPoolRefCount s"
  "wellKnown (emit e s) = wellKnown s"
  "selectChoices (emit e s) = selectChoices s"
  "trace (emit e s) = trace s @ [e]"
  by (simp_all add: emit_def)

lemma Wait_trace [simp]:
  "trace (snd (WaitForInitialIdentities E ctx s)) = trace s @ waited E ctx s"
  by (simp add: waited_def emitted_def WaitForInitialIdentities_def emit_def Let_def
        split: option.splits list.splits)

lemma waited_cases:
  "waited E ctx s = [] \<or> waited E ctx s = [Allocator_WaitForInitialSync]"
  by (simp add: waited_def emitted_def WaitForInitialIdentities_def emit_def Let_def
        split: option.splits list.splits)

lemma waited_emit [simp]: "waited E ctx (emit e s) = waited E ctx s"
  by (simp add: waited_def emitted_def WaitForInitialIdentities_def emit_def Let_def
        split: option.splits list.splits)

lemma filter_isRefCounting_waited [simp]: "filter isRefCounting (waited E ctx s) = []"
  using waited_cases [of E ctx s] by auto

lemma filter_isLog_waited [simp]: "filter isLog (waited E ctx s) = []"
  using waited_cases [of E ctx s] by auto

lemma Wait_Returns:
  "IdentityAllocator s \<noteq> None \<Longrightarrow> identityAllocatorInitialized s \<or> ctxDone ctx \<Longrightarrow>
     \<exists>w. fst (WaitForInitialIdentities E ctx s) = Returns w"
  by (auto simp: WaitForInitialIdentities_def Let_def split: list.splits)

lemma Wait_emit_fst [simp]:
  "fst (WaitForInitialIdentities E ctx (emit e s)) = fst (WaitForInitialIdentities E ctx s)"
  by (simp add: WaitForInitialIdentities_def emit_def Let_def split: option.splits list.splits)

lemma emitted_append [simp]: "trace s' = trace s @ es \<Longrightarrow> emitted s s' = es"
  by (simp add: emitted_def)

section \<open>Backend failures\<close>

text \<open>
  Claim C6. On the global path (the label set is not reserved, and it requires a global
  identity or there is no local cache), with the readiness wait over and an allocator
  present: when the backend's Allocate returns an error, AllocateIdentity returns that
  error, and when the backend's Release returns an error, Release returns that error; in
  both cases the reference-count table and the controller manager are as before and the
  call emits no reference-counting effect.
\<close>

theorem backend_error_leaves_counts:
  "(LookupReservedIdentityByLabels E (wellKnown s) lbls = None \<and>
    (RequiresGlobalIdentity E lbls \<or> localIdentities s = None) \<and>
    (identityAllocatorInitialized s \<or> ctxDone ctx) \<and>
    IdentityAllocator s = Some a \<and>
    fst (allocator_Allocate E ctx lbls a) = Inl err
    \<longrightarrow>
    fst (AllocateIdentity E ctx lbls s) = Returns (None, False, Some err) \<and>
    idPoolRefCount (snd (AllocateIdentity E ctx lbls s)) = idPoolRefCount s \<and>
    identityControllerManager (snd (AllocateIdentity E ctx lbls s)) = identityControllerManager s \<and>
    filter isRefCounting (emitted s (snd (AllocateIdentity E ctx lbls s))) = []) \<and>
   (\<not> IsReserved E (wellKnown s) idp \<and>
    (RequiresGlobalIdentity E (Labels idp) \<or> localIdentities s = None) \<and>
    (identityAllocatorInitialized s \<or> ctxDone ctx) \<and>
    IdentityAllocator s = Some a \<and>
    fst (allocator_Release E ctx (Labels idp) a) = Inl err
    \<longrightarrow>
    fst (Release E ctx idp s) = Returns (False, Some err) \<and>
    idPoolRefCount (snd (Release E ctx idp s)) = idPoolRefCount s \<and>
    identityControllerManager (snd (Release E ctx idp s)) = identityControllerManager s \<and>
    filter isRefCounting (emitted s (snd (Release E ctx idp s))) = [])"
proof (intro conjI impI)
  assume h: "LookupReservedIdentityByLabels E (wellKnown s) lbls = None \<and>
    (RequiresGlobalIdentity E lbls \<or> localIdentities s = None) \<and>
    (identityAllocatorInitialized s \<or> ctxDone ctx) \<and>
    IdentityAllocator s = Some a \<and>
    fst (allocator_Allocate E ctx lbls a) = Inl err"
  then obtain w where w: "fst (WaitForInitialIdentities E ctx s) = Returns w"
    using Wait_Returns [of s ctx E] by auto
  have path: "\<not> RequiresGlobalIdentity E lbls \<Longrightarrow> localIdentities s = None"
    using h by auto
  obtain a' where a': "allocator_Allocate E ctx lbls a = (Inl err, a')"
    using h by (cases "allocator_Allocate E ctx lbls a") auto
  have eq: "AllocateIdentity E ctx lbls s =
      (Returns (None, False, Some err),
       emit (Allocator_Allocate lbls)
         ((snd (WaitForInitialIdentities E ctx
             (emit (Log Debug [F_IdentityLabels (labels_String E lbls)] ''Resolving identity'') s)))
          \<lparr>IdentityAllocator := Some a'\<rparr>))"
    using h
    by (simp add: AllocateIdentity_def Let_def andThen_alt w path a')
  show "fst (AllocateIdentity E ctx lbls s) = Returns (None, False, Some err)"
    by (simp add: eq)
  show "idPoolRefCount (snd (AllocateIdentity E ctx lbls s)) = idPoolRefCount s"
    by (simp add: eq)
  show "identityControllerManager (snd (AllocateIdentity E ctx lbls s)) = identityControllerManager s"
    by (simp add: eq)
  have "trace (snd (AllocateIdentity E ctx lbls s)) =
      trace s @ (Log Debug [F_IdentityLabels (labels_String E lbls)] ''Resolving identity'' #
        waited E ctx s @ [Allocator_Allocate lbls])"
    by (simp add: eq)
  then show "filter isRefCounting (emitted s (snd (AllocateIdentity E ctx lbls s))) = []"
    by simp
next
  assume h: "\<not> IsReserved E (wellKnown s) idp \<and>
    (RequiresGlobalIdentity E (Labels idp) \<or> localIdentities s = None) \<and>
    (identityAllocatorInitialized s \<or> ctxDone ctx) \<and>
    IdentityAllocator s = Some a \<and>
    fst (allocator_Release E ctx (Labels idp) a) = Inl err"
  then obtain w where w: "fst (WaitForInitialIdentities E ctx s) = Returns w"
    using Wait_Returns [of s ctx E] by auto
  have path: "\<not> RequiresGlobalIdentity E (Labels idp) \<Longrightarrow> localIdentities s = None"
    using h by auto
  obtain a' where a': "allocator_Release E ctx (Labels idp) a = (Inl err, a')"
    using h by (cases "allocator_Release E ctx (Labels idp) a") auto
  have eq: "Release E ctx idp s =
      (Returns (False, Some err),
       emit (Allocator_Release (Labels idp))
         ((snd (WaitForInitialIdentities E ctx s))\<lparr>IdentityAllocator := Some a'\<rparr>))"
    using h
    by (simp add: Release_def Let_def andThen_alt w path a')
  show "fst (Release E ctx idp s) = Returns (False, Some err)"
    by (simp add: eq)
  show "idPoolRefCount (snd (Release E ctx idp s)) = idPoolRefCount s"
    by (simp add: eq)
  show "identityControllerManager (snd (Release E ctx idp s)) = identityControllerManager s"
    by (simp add: eq)
  have "trace (snd (Release E ctx idp s)) =
      trace s @ (waited E ctx s @ [Allocator_Release (Labels idp)])"
    by (simp add: eq)
  then show "filter isRefCounting (emitted s (snd (Release E ctx idp s))) = []"
    by simp
qed

theorem backend_error_leaves_counts_witness:
  "LookupReservedIdentityByLabels testEnv (wellKnown startedState) ''k8s:fail'' = None \<and>
   RequiresGlobalIdentity testEnv ''k8s:fail'' \<and>
   identityAllocatorInitialized startedState \<and>
   IdentityAllocator startedState = Some 0 \<and>
   fst (allocator_Allocate testEnv background ''k8s:fail'' 0) = Inl ''kvstore unreachable'' \<and>
   fst (AllocateIdentity testEnv background ''k8s:fail'' startedState) =
     Returns (None, False, Some ''kvstore unreachable'') \<and>
   idPoolRefCount (snd (AllocateIdentity testEnv background ''k8s:fail'' startedState)) = Some Map.empty \<and>
   \<not> IsReserved testEnv (wellKnown startedState) \<lparr>ID = 256, Labels = ''k8s:fail''\<rparr> \<and>
   fst (allocator_Release testEnv background ''k8s:fail'' 0) = Inl ''kvstore unreachable'' \<and>
   fst (Release testEnv background \<lparr>ID = 256, Labels = ''k8s:fail''\<rparr> startedState) =
     Returns (False, Some ''kvstore unreachable'') \<and>
   idPoolRefCount (snd (Release testEnv background \<lparr>ID = 256, Labels = ''k8s:fail''\<rparr> startedState)) =
     Some Map.empty"
proof -
  have h1: "LookupReservedIdentityByLabels testEnv (wellKnown startedState) ''k8s:fail'' = None"
    by (simp add: testEnv_def)
  have h2: "RequiresGlobalIdentity testEnv ''k8s:fail''"
    by (simp add: testEnv_def)
  have h3: "identityAllocatorInitialized startedState"
    by (simp add: startedState_eq)
  have h4: "IdentityAllocator startedState = Some 0"
    by (simp add: startedState_eq)
  have h5: "fst (allocator_Allocate testEnv background ''k8s:fail'' 0) = Inl ''kvstore unreachable''"
    by (simp add: testEnv_def)
  have h6: "\<not> IsReserved testEnv (wellKnown startedState) \<lparr>ID = 256, Labels = ''k8s:fail''\<rparr>"
    by (simp add: testEnv_def)
  have h7: "fst (allocator_Release testEnv background ''k8s:fail'' 0) = Inl ''kvstore unreachable''"
    by (simp add: testEnv_def)
  have h8: "idPoolRefCount startedState = Some Map.empty"
    by (simp add: startedState_eq)
  show ?thesis
    using h1 h2 h3 h4 h5 h6 h7 h8
      backend_error_leaves_counts [of testEnv startedState "''k8s:fail''" background 0
        "''kvstore unreachable''" "\<lparr>ID = 256, Labels = ''k8s:fail''\<rparr>"]
    by simp
qed

section \<open>Release\<close>

subsection \<open>A count that is already zero\<close>

lemma refCount_updates [simp]:
  "refCount (s\<lparr>IdentityAllocator := a\<rparr>) = refCount s"
  "refCount (s\<lparr>localIdentities := c\<rparr>) = refCount s"
  "refCount (s\<lparr>identityControllerManager := m\<rparr>) = refCount s"
  by (simp_all add: refCount_def fun_eq_iff)

lemma lockedDecrement_zero:
  "refCount s i = 0 \<Longrightarrow>
     lockedDecrement i s =
       (Returns (), emit (Unlock identityRefCountMutex) (emit (Lock identityRefCountMutex) s))"
  by (simp add: lockedDecrement_def Let_def)

lemma Release_at_zero_state:
  assumes "refCount s (ucast (ID idp)) = 0"
  shows "idPoolRefCount (snd (Release E ctx idp s)) = idPoolRefCount s \<and>
         identityControllerManager (snd (Release E ctx idp s)) = identityControllerManager s"
  using assms
  unfolding Release_def Let_def andThen_alt
  by (simp add: lockedDecrement_zero
        split: option.splits prod.splits sum.splits outcome.splits)

lemma Release_at_zero_trace:
  assumes "refCount s (ucast (ID idp)) = 0"
  shows "filter isRefCounting (emitted s (snd (Release E ctx idp s))) = []"
  using assms
  unfolding Release_def Let_def andThen_alt
  by (simp add: lockedDecrement_zero emitted_def
        split: option.splits prod.splits sum.splits outcome.splits)

text \<open>
  Claim C4. When the reference count of the identity is zero (or the identity has no entry,
  or there is no table), whatever path Release takes and however it ends, the
  reference-count table and the controller manager are left exactly as they were: the count
  is not decremented, so it does not wrap around, no controller is removed, and the call
  emits no reference-counting effect.
\<close>

theorem Release_at_zero:
  assumes "refCount s (ucast (ID idp)) = 0"
  shows "idPoolRefCount (snd (Release E ctx idp s)) = idPoolRefCount s \<and>
         identityControllerManager (snd (Release E ctx idp s)) = identityControllerManager s \<and>
         refCount (snd (Release E ctx idp s)) (ucast (ID idp)) = 0 \<and>
         filter isRefCounting (emitted s (snd (Release E ctx idp s))) = []"
proof -
  have st: "idPoolRefCount (snd (Release E ctx idp s)) = idPoolRefCount s \<and>
         identityControllerManager (snd (Release E ctx idp s)) = identityControllerManager s"
    using assms by (rule Release_at_zero_state)
  then have "refCount (snd (Release E ctx idp s)) (ucast (ID idp)) = refCount s (ucast (ID idp))"
    by (simp add: refCount_def)
  then show ?thesis
    using st assms Release_at_zero_trace [OF assms, of E ctx] by simp
qed

theorem Release_at_zero_witness:
  "refCount startedState (ucast (ID \<lparr>ID = 256, Labels = ''k8s:app=foo''\<rparr>)) = 0 \<and>
   idPoolRefCount (snd (Release testEnv background \<lparr>ID = 256, Labels = ''k8s:app=foo''\<rparr> startedState)) =
     Some Map.empty \<and>
   identityControllerManager
     (snd (Release testEnv background \<lparr>ID = 256, Labels = ''k8s:app=foo''\<rparr> startedState)) = Some []"
proof -
  have h: "refCount startedState (ucast (ID \<lparr>ID = 256, Labels = ''k8s:app=foo''\<rparr>)) = 0"
    by (simp add: startedState_eq refCount_def)
  have m: "idPoolRefCount startedState = Some Map.empty"
    "identityControllerManager startedState = Some []"
    by (simp_all add: startedState_eq)
  show ?thesis
    using h m Release_at_zero [OF h, of testEnv background] by simp
qed

section \<open>The readiness wait inside AllocateIdentity and Release\<close>

text \<open>
  Claim C1 says that a cancellation error of WaitForInitialIdentities is returned by
  AllocateIdentity and Release. Lines 214 and 279 call WaitForInitialIdentities and drop its
  result. With a cancelled context and no allocator, the wait returns "initial identity sync
  was cancelled: context canceled", and the two functions return the other error,
  "allocator not initialized". With a cancelled context and a live allocator, the wait
  returns an error, and the two functions go on to the backend and return a nil error.
\<close>

theorem wait_error_dropped:
  "fst (WaitForInitialIdentities testEnv cancelled (initialState [])) =
     Returns (Some ''initial identity sync was cancelled: context canceled'') \<and>
   fst (AllocateIdentity testEnv cancelled ''k8s:app=foo'' (initialState [])) =
     Returns (None, False, Some ''allocator not initialized'') \<and>
   fst (Release testEnv cancelled \<lparr>ID = 256, Labels = ''k8s:app=foo''\<rparr> (initialState [])) =
     Returns (False, Some ''allocator not initialized'') \<and>
   fst (WaitForInitialIdentities testEnv cancelled startedState) =
     Returns (Some ''context error: context canceled'') \<and>
   fst (AllocateIdentity testEnv cancelled ''k8s:app=foo'' startedState) =
     Returns (Some \<lparr>ID = 256, Labels = ''k8s:app=foo''\<rparr>, True, None) \<and>
   fst (Release testEnv cancelled \<lparr>ID = 256, Labels = ''k8s:app=foo''\<rparr> startedState) =
     Returns (False, None)"
  by (simp add: startedState_eq AllocateIdentity_def Release_def lockedIncrement_def
        lockedDecrement_def WaitForInitialIdentities_def andThen_def testEnv_def
        cancelled_def initialState_def emit_def Let_def refCount_def)

section \<open>Lifecycle\<close>

subsection \<open>The order of the steps of InitIdentityAllocator\<close>

text \<open>
  Claim C7. When no allocator is live and NewAllocator succeeds, InitIdentityAllocator
  returns, and its effects are, in this order: the well-known identities are initialised,
  the watcher is started, the backend handle is constructed, the controller manager is
  created, the reference-count table is made, the handle is stored, the channel is closed
  (ready), the local identity cache is constructed. In particular the watcher is started
  before the backend handle is constructed.
\<close>

theorem InitIdentityAllocator_order:
  assumes "IdentityAllocator s = None"
    and "\<not> identityAllocatorInitialized s"
    and "allocator_NewAllocator E (GetNodeSuffix owner) = Inr a"
  shows "fst (InitIdentityAllocator E owner s) = Returns () \<and>
         emitted s (snd (InitIdentityAllocator E owner s)) =
           [Lock setupMutex, InitWellKnownIdentities,
            Log Info [] ''Initializing identity allocator'', Watcher_watch,
            Allocator_NewAllocator (GetNodeSuffix owner), Controller_NewManager, RefCount_make,
            Assign_IdentityAllocator, Chan_close, Local_newLocalIdentityCache,
            Unlock setupMutex] \<and>
         precedes Watcher_watch (Allocator_NewAllocator (GetNodeSuffix owner))
           (emitted s (snd (InitIdentityAllocator E owner s))) \<and>
         IdentityAllocator (snd (InitIdentityAllocator E owner s)) = Some a \<and>
         identityControllerManager (snd (InitIdentityAllocator E owner s)) = Some [] \<and>
         idPoolRefCount (snd (InitIdentityAllocator E owner s)) = Some Map.empty \<and>
         identityAllocatorInitialized (snd (InitIdentityAllocator E owner s)) \<and>
         localIdentities (snd (InitIdentityAllocator E owner s)) = Some (newLocalIdentityCache E)"
  using assms
  by (simp add: InitIdentityAllocator_def Let_def emit_def emitted_def precedes_def NewManager_def)

theorem InitIdentityAllocator_order_witness:
  "IdentityAllocator (initialState [] :: (string, nat, nat) state) = None \<and>
   \<not> identityAllocatorInitialized (initialState [] :: (string, nat, nat) state) \<and>
   allocator_NewAllocator testEnv (GetNodeSuffix testOwner) = Inr 0 \<and>
   fst (InitIdentityAllocator testEnv testOwner (initialState [])) = Returns () \<and>
   precedes Watcher_watch (Allocator_NewAllocator ''node1'')
     (emitted (initialState []) (snd (InitIdentityAllocator testEnv testOwner (initialState []))))"
proof -
  have h1: "IdentityAllocator (initialState [] :: (string, nat, nat) state) = None"
    by (simp add: initialState_def)
  have h2: "\<not> identityAllocatorInitialized (initialState [] :: (string, nat, nat) state)"
    by (simp add: initialState_def)
  have h3: "allocator_NewAllocator testEnv (GetNodeSuffix testOwner) = Inr 0"
    by (simp add: testEnv_def)
  have h4: "GetNodeSuffix testOwner = ''node1''"
    by (simp add: testOwner_def)
  show ?thesis
    using h1 h2 h3 h4 InitIdentityAllocator_order [OF h1 h2 h3] by (simp add: precedes_def)
qed

subsection \<open>Misuse\<close>

text \<open>
  Claim C8. In every state the process can reach: InitIdentityAllocator called while an
  allocator is live panics, and Close called while none is live panics. Both leave the
  variables as they were; they log the panic message and release setupMutex.
\<close>

theorem misuse_panics:
  assumes "reachable E s"
  shows "(IdentityAllocator s \<noteq> None \<longrightarrow>
            InitIdentityAllocator E owner s =
              (Panics ''InitIdentityAllocator() in succession without calling Close()'',
               s\<lparr>trace := trace s @
                  [Lock setupMutex,
                   Log Panic [] ''InitIdentityAllocator() in succession without calling Close()'',
                   Unlock setupMutex]\<rparr>)) \<and>
         (IdentityAllocator s = None \<longrightarrow>
            Close s =
              (Panics ''Close() called without calling InitIdentityAllocator() first'',
               s\<lparr>trace := trace s @
                  [Lock setupMutex,
                   Log Panic [] ''Close() called without calling InitIdentityAllocator() first'',
                   Unlock setupMutex]\<rparr>))"
proof -
  have "consistent s" using assms by (rule reachable_consistent)
  then show ?thesis
    by (simp add: consistent_def InitIdentityAllocator_def Close_def Let_def emit_def)
qed

theorem misuse_panics_witness:
  "reachable testEnv startedState \<and> IdentityAllocator startedState \<noteq> None \<and>
   fst (InitIdentityAllocator testEnv testOwner startedState) =
     Panics ''InitIdentityAllocator() in succession without calling Close()'' \<and>
   reachable testEnv (initialState []) \<and>
   IdentityAllocator (initialState [] :: (string, nat, nat) state) = None \<and>
   fst (Close (initialState [] :: (string, nat, nat) state)) =
     Panics ''Close() called without calling InitIdentityAllocator() first''"
proof -
  have r1: "reachable testEnv startedState" by (rule reachable_startedState)
  have r2: "reachable testEnv (initialState [])" by (rule reachable.start)
  have a1: "IdentityAllocator startedState \<noteq> None" by (simp add: startedState_eq)
  have a2: "IdentityAllocator (initialState [] :: (string, nat, nat) state) = None"
    by (simp add: initialState_def)
  show ?thesis
    using r1 r2 a1 a2 misuse_panics [OF r1, of testOwner] misuse_panics [OF r2, of testOwner]
    by simp
qed

section \<open>ReleaseSlice\<close>

subsection \<open>Nil entries\<close>

lemma ReleaseSlice_loop_filter:
  "ReleaseSlice_loop E ctx err identities s =
     ReleaseSlice_loop E ctx err (filter (\<lambda>p. p \<noteq> None) identities) s"
proof (induction identities arbitrary: err s)
  case Nil
  show ?case by simp
next
  case (Cons p identities)
  show ?case
  proof (cases p)
    case None
    then show ?thesis using Cons.IH by (simp del: not_None_eq)
  next
    case (Some idp)
    have "\<And>err s. ReleaseSlice_loop E ctx err identities s =
        ReleaseSlice_loop E ctx err (filter (\<lambda>p. p \<noteq> None) identities) s"
      by (rule Cons.IH)
    show ?thesis using Some
      by (simp del: not_None_eq add: Cons.IH [symmetric] cong: option.case_cong)
  qed
qed

lemma ReleaseSlice_loop_nils:
  "ReleaseSlice_loop E ctx err (replicate n None) s = (Returns err, s)"
  by (induction n) simp_all

text \<open>
  Claim C10. ReleaseSlice does for a slice what it does for the slice without its nil
  entries: the same outcome, the same error, the same final state, trace included. So a nil
  entry is passed over with no Release, no log line and no error. In particular a nil entry
  may be dropped anywhere in the slice, and a slice of nil entries returns nil and leaves
  the state as it is.
\<close>

theorem ReleaseSlice_skips_nil:
  "ReleaseSlice E ctx identities s =
     ReleaseSlice E ctx (filter (\<lambda>p. p \<noteq> None) identities) s \<and>
   ReleaseSlice E ctx (xs @ None # ys) s = ReleaseSlice E ctx (xs @ ys) s \<and>
   ReleaseSlice E ctx (replicate n None) s = (Returns None, s)"
proof -
  have "ReleaseSlice E ctx (xs @ None # ys) s =
      ReleaseSlice E ctx (filter (\<lambda>p. p \<noteq> None) (xs @ None # ys)) s"
    unfolding ReleaseSlice_def by (rule ReleaseSlice_loop_filter)
  also have "\<dots> = ReleaseSlice E ctx (filter (\<lambda>p. p \<noteq> None) (xs @ ys)) s"
    by simp
  also have "\<dots> = ReleaseSlice E ctx (xs @ ys) s"
    unfolding ReleaseSlice_def by (rule ReleaseSlice_loop_filter [symmetric])
  finally show ?thesis
    using ReleaseSlice_loop_filter [of E ctx None identities s]
      ReleaseSlice_loop_nils [of E ctx None n s]
    by (simp add: ReleaseSlice_def del: not_None_eq)
qed

theorem ReleaseSlice_skips_nil_witness:
  "ReleaseSlice testEnv background [None, None] startedState = (Returns None, startedState) \<and>
   ReleaseSlice testEnv background
       [None, Some \<lparr>ID = 256, Labels = ''k8s:fail''\<rparr>, None] startedState =
     ReleaseSlice testEnv background [Some \<lparr>ID = 256, Labels = ''k8s:fail''\<rparr>] startedState"
  using ReleaseSlice_skips_nil [of testEnv background "[]" startedState "[]" "[]" 2]
    ReleaseSlice_skips_nil [of testEnv background
      "[None, Some \<lparr>ID = 256, Labels = ''k8s:fail''\<rparr>, None]" startedState "[]" "[]" 0]
  by (simp add: numeral_2_eq_2 del: not_None_eq)

subsection \<open>The trace of Release\<close>

lemma trace_updates [simp]:
  "trace (s\<lparr>IdentityAllocator := a\<rparr>) = trace s"
  "trace (s\<lparr>localIdentities := c\<rparr>) = trace s"
  "trace (s\<lparr>identityControllerManager := m\<rparr>) = trace s"
  "trace (s\<lparr>idPoolRefCount := r\<rparr>) = trace s"
  by simp_all

lemma lockedDecrement_trace [simp]:
  "trace (snd (lockedDecrement i s)) = trace s @ decremented i s"
  unfolding decremented_def emitted_def lockedDecrement_def Let_def andThen_alt
  by (simp split: option.splits)

lemma filter_isLog_decremented [simp]: "filter isLog (decremented i s) = []"
  unfolding decremented_def emitted_def lockedDecrement_def Let_def andThen_alt
  by (simp split: option.splits)

lemma Release_trace [simp]:
  "trace (snd (Release E ctx idp s)) = trace s @ released E ctx idp s"
  unfolding released_def emitted_def Release_def Let_def andThen_alt
  by (simp split: option.splits prod.splits sum.splits outcome.splits)

lemma filter_isLog_released [simp]: "filter isLog (released E ctx idp s) = []"
  unfolding released_def emitted_def Release_def Let_def andThen_alt
  by (simp split: option.splits prod.splits sum.splits outcome.splits)

subsection \<open>When Release returns\<close>

lemma lockedDecrement_Returns:
  "identityControllerManager s \<noteq> None \<Longrightarrow> idPoolRefCount s \<noteq> None \<Longrightarrow>
     fst (lockedDecrement i s) = Returns ()"
  unfolding lockedDecrement_def Let_def andThen_alt
  by (auto simp: emit_def split: option.splits)

lemma Release_Returns:
  assumes "consistent s" and "identityAllocatorInitialized s \<or> ctxDone ctx"
  shows "returned (fst (Release E ctx idp s))"
proof -
  have w: "IdentityAllocator s \<noteq> None \<Longrightarrow> \<exists>w. fst (WaitForInitialIdentities E ctx s) = Returns w"
    using assms(2) Wait_Returns [of s ctx E] by blast
  have w0: "IdentityAllocator s = None \<Longrightarrow> \<exists>w. fst (WaitForInitialIdentities E ctx s) = Returns w"
    using assms by (auto simp: consistent_def WaitForInitialIdentities_def Let_def)
  obtain w' where w': "fst (WaitForInitialIdentities E ctx s) = Returns w'"
    using w w0 by blast
  have live: "IdentityAllocator s \<noteq> None \<Longrightarrow>
      identityControllerManager s \<noteq> None \<and> idPoolRefCount s \<noteq> None"
    using assms(1) by (simp add: consistent_def)
  show ?thesis
    unfolding Release_def Let_def andThen_alt
    using live
    by (simp add: w' lockedDecrement_Returns split: option.splits prod.splits sum.splits)
qed

lemma Release_initialized [simp]:
  "identityAllocatorInitialized (snd (Release E ctx idp s)) = identityAllocatorInitialized s"
proof -
  have d: "\<And>i s. identityAllocatorInitialized (snd (lockedDecrement i s)) = identityAllocatorInitialized s"
    unfolding lockedDecrement_def Let_def andThen_alt
    by (simp add: emit_def split: option.splits)
  show ?thesis
    unfolding Release_def Let_def andThen_alt
    by (simp add: d split: option.splits prod.splits sum.splits outcome.splits)
qed

subsection \<open>The loop against the spec's description\<close>

lemma lastError_Cons:
  "lastError (f # fs) = (case lastError fs of None \<Rightarrow> Some (snd f) | Some e \<Rightarrow> Some e)"
  by (simp add: lastError_def)

lemma lastError_Nil [simp]: "lastError [] = None"
  by (simp add: lastError_def)

lemma releaseEach_attempts: "map fst (fst (releaseEach E ctx xs s)) = xs"
  by (induction xs arbitrary: s) (simp_all add: Let_def)

lemma ReleaseSlice_loop_releaseEach:
  "list_all (\<lambda>r. returned (snd r)) (fst (releaseEach E ctx (nonNil identities) s)) \<Longrightarrow>
   ReleaseSlice_loop E ctx err identities s =
     (Returns (case lastError (failures (fst (releaseEach E ctx (nonNil identities) s))) of
                 None \<Rightarrow> err | Some e \<Rightarrow> Some e),
      snd (releaseEach E ctx (nonNil identities) s))"
proof (induction identities arbitrary: err s)
  case Nil
  show ?case by simp
next
  case (Cons p identities)
  show ?case
  proof (cases p)
    case None
    then show ?thesis using Cons by simp
  next
    case (Some idp)
    from Cons.prems Some have "returned (fst (Release E ctx idp s))"
      by (simp add: Let_def)
    then obtain b eo where r: "fst (Release E ctx idp s) = Returns (b, eo)"
      by (cases "fst (Release E ctx idp s)") auto
    show ?thesis
    proof (cases eo)
      case None
      have rest: "list_all (\<lambda>r. returned (snd r))
          (fst (releaseEach E ctx (nonNil identities) (snd (Release E ctx idp s))))"
        using Cons.prems Some r None by (simp add: Let_def)
      show ?thesis
        using Some r None Cons.IH [OF rest, of err]
        by (simp add: Let_def andThen_alt)
    next
      case (Some e)
      let ?s = "emit (Log Error [F_error e, F_IdentityPtr idp] ''Failed to release identity'')
                  (snd (Release E ctx idp s))"
      have rest: "list_all (\<lambda>r. returned (snd r)) (fst (releaseEach E ctx (nonNil identities) ?s))"
        using Cons.prems \<open>p = Some idp\<close> r Some by (simp add: Let_def)
      show ?thesis
        using \<open>p = Some idp\<close> r Some Cons.IH [OF rest, of "Some e"]
        by (simp add: Let_def andThen_alt lastError_Cons split: option.splits)
    qed
  qed
qed

lemma releaseEach_trace:
  "\<exists>es. trace (snd (releaseEach E ctx xs s)) = trace s @ es \<and>
        filter isLog es = map failureLog (failures (fst (releaseEach E ctx xs s)))"
proof (induction xs arbitrary: s)
  case Nil
  show ?case by simp
next
  case (Cons idp xs)
  let ?out = "fst (Release E ctx idp s)"
  let ?s' = "snd (Release E ctx idp s)"
  show ?case
  proof (cases "\<exists>b e. ?out = Returns (b, Some e)")
    case True
    then obtain b e where r: "?out = Returns (b, Some e)" by blast
    let ?s = "emit (Log Error [F_error e, F_IdentityPtr idp] ''Failed to release identity'') ?s'"
    obtain es where es: "trace (snd (releaseEach E ctx xs ?s)) = trace ?s @ es"
      "filter isLog es = map failureLog (failures (fst (releaseEach E ctx xs ?s)))"
      using Cons.IH [of ?s] by blast
    have "trace (snd (releaseEach E ctx (idp # xs) s)) =
        trace s @ (released E ctx idp s @
          [Log Error [F_error e, F_IdentityPtr idp] ''Failed to release identity''] @ es)"
      using r es(1) by (simp add: Let_def)
    moreover have "filter isLog (released E ctx idp s @
          [Log Error [F_error e, F_IdentityPtr idp] ''Failed to release identity''] @ es) =
        map failureLog (failures (fst (releaseEach E ctx (idp # xs) s)))"
      using r es(2) by (simp add: Let_def failureLog_def)
    ultimately show ?thesis by blast
  next
    case False
    have s'': "(case ?out of Returns (_, Some err2) \<Rightarrow>
                 emit (Log Error [F_error err2, F_IdentityPtr idp] ''Failed to release identity'') ?s'
               | _ \<Rightarrow> ?s') = ?s'"
      using False by (auto split: outcome.splits option.splits)
    have f: "failures ((idp, ?out) # rs) = failures rs" for rs
      using False by (cases ?out) (auto split: option.splits)
    obtain es where es: "trace (snd (releaseEach E ctx xs ?s')) = trace ?s' @ es"
      "filter isLog es = map failureLog (failures (fst (releaseEach E ctx xs ?s')))"
      using Cons.IH [of ?s'] by blast
    have "trace (snd (releaseEach E ctx (idp # xs) s)) = trace s @ (released E ctx idp s @ es)"
      using es(1) by (simp add: Let_def s'')
    moreover have "filter isLog (released E ctx idp s @ es) =
        map failureLog (failures (fst (releaseEach E ctx (idp # xs) s)))"
      using es(2) by (simp add: Let_def s'' f)
    ultimately show ?thesis by blast
  qed
qed

lemma releaseEach_returned:
  "consistent s \<Longrightarrow> identityAllocatorInitialized s \<or> ctxDone ctx \<Longrightarrow>
     list_all (\<lambda>r. returned (snd r)) (fst (releaseEach E ctx xs s))"
proof (induction xs arbitrary: s)
  case Nil
  show ?case by simp
next
  case (Cons idp xs)
  let ?out = "fst (Release E ctx idp s)"
  let ?s' = "snd (Release E ctx idp s)"
  let ?s'' = "case ?out of Returns (_, Some err2) \<Rightarrow>
                 emit (Log Error [F_error err2, F_IdentityPtr idp] ''Failed to release identity'') ?s'
               | _ \<Rightarrow> ?s'"
  have c: "consistent ?s'" using Cons.prems(1) by (rule consistent_Release)
  have c'': "consistent ?s''"
    using c by (auto split: outcome.splits option.splits)
  have i'': "identityAllocatorInitialized ?s'' = identityAllocatorInitialized s"
    by (auto split: outcome.splits option.splits)
  have "returned ?out" using Cons.prems by (rule Release_Returns)
  moreover have "list_all (\<lambda>r. returned (snd r)) (fst (releaseEach E ctx xs ?s''))"
    using Cons.IH [OF c''] Cons.prems(2) i'' by blast
  ultimately show ?case by (simp add: Let_def)
qed

lemma Release_started:
  assumes "IdentityAllocator s = Some a" and "identityAllocatorInitialized s"
    and "idPoolRefCount s = Some Map.empty" and "\<not> ID idp < 256"
    and "take 5 (Labels idp) \<noteq> ''cidr:''"
  shows "Release testEnv background idp s =
     (if Labels idp = ''k8s:fail''
      then (Returns (False, Some ''kvstore unreachable''),
            s\<lparr>IdentityAllocator := Some (a + 1),
              trace := trace s @ [Allocator_WaitForInitialSync, Allocator_Release (Labels idp)]\<rparr>)
      else (Returns (a = 1, None),
            s\<lparr>IdentityAllocator := Some (a + 1),
              trace := trace s @ [Allocator_WaitForInitialSync, Allocator_Release (Labels idp),
                 Lock identityRefCountMutex, Unlock identityRefCountMutex]\<rparr>))"
  using assms
  by (simp add: Release_def lockedDecrement_def WaitForInitialIdentities_def andThen_def
        testEnv_def background_def emit_def refCount_def Let_def)

subsection \<open>Best effort\<close>

text \<open>
  Claim C9. Release returns whenever the state is reachable and the readiness wait cannot
  block (the allocator is initialised or the context is done). Whenever every Release
  returns, ReleaseSlice returns, and it has then released every non-nil element of the
  slice in order, going on after each one that returned an error; its final state is the
  one left by the last of these releases; its log lines are exactly one "Failed to release
  identity" line per failed release, with that error and that identity, in order; and its
  result is the error of the last release that failed, nil if none did. For the slice
  [id1, id2, id3] with a failing id2, the backend's Release for id3 is still called and the
  result is the error of id2.
\<close>

theorem ReleaseSlice_best_effort:
  "(reachable E s \<and> (identityAllocatorInitialized s \<or> ctxDone ctx) \<longrightarrow>
      list_all (\<lambda>r. returned (snd r)) (fst (releaseEach E ctx (nonNil identities) s))) \<and>
   (list_all (\<lambda>r. returned (snd r)) (fst (releaseEach E ctx (nonNil identities) s)) \<longrightarrow>
      ReleaseSlice E ctx identities s =
        (Returns (lastError (failures (fst (releaseEach E ctx (nonNil identities) s)))),
         snd (releaseEach E ctx (nonNil identities) s)) \<and>
      map fst (fst (releaseEach E ctx (nonNil identities) s)) = nonNil identities \<and>
      filter isLog (emitted s (snd (releaseEach E ctx (nonNil identities) s))) =
        map failureLog (failures (fst (releaseEach E ctx (nonNil identities) s))))"
proof (intro conjI impI)
  assume "reachable E s \<and> (identityAllocatorInitialized s \<or> ctxDone ctx)"
  then show "list_all (\<lambda>r. returned (snd r)) (fst (releaseEach E ctx (nonNil identities) s))"
    using releaseEach_returned [of s ctx E "nonNil identities"] reachable_consistent [of E s]
    by blast
next
  assume a: "list_all (\<lambda>r. returned (snd r)) (fst (releaseEach E ctx (nonNil identities) s))"
  show "ReleaseSlice E ctx identities s =
        (Returns (lastError (failures (fst (releaseEach E ctx (nonNil identities) s)))),
         snd (releaseEach E ctx (nonNil identities) s))"
    using ReleaseSlice_loop_releaseEach [OF a, of None]
    by (simp add: ReleaseSlice_def split: option.splits)
  show "map fst (fst (releaseEach E ctx (nonNil identities) s)) = nonNil identities"
    by (rule releaseEach_attempts)
  obtain es where "trace (snd (releaseEach E ctx (nonNil identities) s)) = trace s @ es"
    and "filter isLog es = map failureLog (failures (fst (releaseEach E ctx (nonNil identities) s)))"
    using releaseEach_trace [of E ctx "nonNil identities" s] by blast
  then show "filter isLog (emitted s (snd (releaseEach E ctx (nonNil identities) s))) =
        map failureLog (failures (fst (releaseEach E ctx (nonNil identities) s)))"
    by simp
qed

theorem ReleaseSlice_best_effort_witness:
  "reachable testEnv startedState \<and>
   (identityAllocatorInitialized startedState \<or> ctxDone background) \<and>
   fst (ReleaseSlice testEnv background
          [Some \<lparr>ID = 256, Labels = ''k8s:a''\<rparr>, Some \<lparr>ID = 257, Labels = ''k8s:fail''\<rparr>,
           Some \<lparr>ID = 258, Labels = ''k8s:b''\<rparr>] startedState) =
     Returns (Some ''kvstore unreachable'') \<and>
   emitted startedState (snd (ReleaseSlice testEnv background
          [Some \<lparr>ID = 256, Labels = ''k8s:a''\<rparr>, Some \<lparr>ID = 257, Labels = ''k8s:fail''\<rparr>,
           Some \<lparr>ID = 258, Labels = ''k8s:b''\<rparr>] startedState)) =
     [Allocator_WaitForInitialSync, Allocator_Release ''k8s:a'',
      Lock identityRefCountMutex, Unlock identityRefCountMutex,
      Allocator_WaitForInitialSync, Allocator_Release ''k8s:fail'',
      Log Error [F_error ''kvstore unreachable'', F_IdentityPtr \<lparr>ID = 257, Labels = ''k8s:fail''\<rparr>]
        ''Failed to release identity'',
      Allocator_WaitForInitialSync, Allocator_Release ''k8s:b'',
      Lock identityRefCountMutex, Unlock identityRefCountMutex]"
proof -
  let ?ids = "[Some \<lparr>ID = 256, Labels = ''k8s:a''\<rparr>, Some \<lparr>ID = 257, Labels = ''k8s:fail''\<rparr>,
           Some \<lparr>ID = 258, Labels = ''k8s:b''\<rparr>] :: string Identity option list"
  have r: "reachable testEnv startedState" by (rule reachable_startedState)
  have i: "identityAllocatorInitialized startedState" by (simp add: startedState_eq)
  have each: "releaseEach testEnv background (nonNil ?ids) startedState =
      ([(\<lparr>ID = 256, Labels = ''k8s:a''\<rparr>, Returns (False, None)),
        (\<lparr>ID = 257, Labels = ''k8s:fail''\<rparr>, Returns (False, Some ''kvstore unreachable'')),
        (\<lparr>ID = 258, Labels = ''k8s:b''\<rparr>, Returns (False, None))],
       startedState\<lparr>IdentityAllocator := Some 3,
         trace := trace startedState @
           [Allocator_WaitForInitialSync, Allocator_Release ''k8s:a'',
            Lock identityRefCountMutex, Unlock identityRefCountMutex,
            Allocator_WaitForInitialSync, Allocator_Release ''k8s:fail'',
            Log Error [F_error ''kvstore unreachable'', F_IdentityPtr \<lparr>ID = 257, Labels = ''k8s:fail''\<rparr>]
              ''Failed to release identity'',
            Allocator_WaitForInitialSync, Allocator_Release ''k8s:b'',
            Lock identityRefCountMutex, Unlock identityRefCountMutex]\<rparr>)"
    by (simp add: Release_started startedState_eq Let_def emit_def)
  show ?thesis
    using r i each ReleaseSlice_best_effort [of testEnv startedState background ?ids]
    by (simp add: lastError_def)
qed

section \<open>Reference counts and keep-alive controllers\<close>

subsection \<open>Controllers by name\<close>

lemma tasks_by_name:
  "length (filter (\<lambda>(n, p). n = x) m) = length (filter ((=) x) (map fst m))"
  by (induction m) auto

lemma distinct_count:
  "distinct xs \<Longrightarrow> length (filter ((=) x) xs) = (if x \<in> set xs then 1 else 0)"
proof (induction xs)
  case Nil
  show ?case by simp
next
  case (Cons a xs)
  then show ?case by (cases "a = x") auto
qed

lemma names_UpdateController:
  "map fst (UpdateController x q m) = (if x \<in> set (map fst m) then map fst m else map fst m @ [x])"
proof -
  have eq: "fst \<circ> (\<lambda>(k, p). if k = x then (k, q) else (k, p)) = fst"
    by (auto simp: fun_eq_iff)
  show ?thesis by (simp add: UpdateController_def eq image_iff)
qed

lemma names_RemoveControllerAndWait:
  "map fst (RemoveControllerAndWait x m) = filter (\<lambda>n. n \<noteq> x) (map fst m)"
  by (induction m) (auto simp: RemoveControllerAndWait_def)

lemma keepAliveTasks_le_1: "consistent s \<Longrightarrow> keepAliveTasks s i \<le> 1"
proof (cases "identityControllerManager s")
  case None
  then show ?thesis by (simp add: keepAliveTasks_def)
next
  case (Some m)
  assume "consistent s"
  then have "distinct (map fst m)" using Some by (simp add: consistent_def)
  then have "length (filter ((=) (controllerName i)) (map fst m)) \<le> 1"
    by (simp only: distinct_count split: if_splits) simp
  then show ?thesis
    using Some by (simp only: keepAliveTasks_def tasks_by_name option.case)
qed

lemma tasks_UpdateController:
  assumes "distinct (map fst m)"
  shows "length (filter (\<lambda>(n, p). n = x) (UpdateController x q m)) = 1"
proof -
  have d: "distinct (map fst (UpdateController x q m))"
    using assms by (rule distinct_UpdateController)
  have "x \<in> set (map fst (UpdateController x q m))"
    by (simp only: names_UpdateController split: if_splits) simp
  then have "length (filter ((=) x) (map fst (UpdateController x q m))) = 1"
    by (simp only: distinct_count [OF d] if_True)
  then show ?thesis by (simp only: tasks_by_name)
qed

lemma tasks_RemoveControllerAndWait:
  "length (filter (\<lambda>(n, p). n = x) (RemoveControllerAndWait x m)) = 0"
  by (induction m) (auto simp: RemoveControllerAndWait_def)

lemma lockedIncrement_live:
  assumes "identityControllerManager s = Some m" and "idPoolRefCount s = Some rc"
  shows "lockedIncrement lbls i s =
     (Returns (),
      s\<lparr>identityControllerManager :=
          Some (if refCount s i = 0
                then UpdateController (controllerName i) \<lparr>DoFunc = lbls, RunInterval = 1000000\<rparr> m
                else m),
        idPoolRefCount := Some (rc(i \<mapsto> refCount s i + 1)),
        trace := trace s @ Lock identityRefCountMutex #
          (if refCount s i = 0 then [Controller_UpdateController (controllerName i)] else []) @
          [RefCount_incr i, Unlock identityRefCountMutex]\<rparr>)"
  using assms
  by (simp add: lockedIncrement_def Let_def andThen_def emit_def refCount_def)

lemma lockedDecrement_live:
  assumes "identityControllerManager s = Some m" and "idPoolRefCount s = Some rc"
    and "refCount s i \<noteq> 0"
  shows "lockedDecrement i s =
     (Returns (),
      s\<lparr>identityControllerManager :=
          Some (if refCount s i = 1 then RemoveControllerAndWait (controllerName i) m else m),
        idPoolRefCount := Some (rc(i \<mapsto> refCount s i - 1)),
        trace := trace s @ Lock identityRefCountMutex #
          (if refCount s i = 1 then [Controller_RemoveControllerAndWait (controllerName i)] else []) @
          [RefCount_decr i, Unlock identityRefCountMutex]\<rparr>)"
  using assms
  by (simp add: lockedDecrement_def Let_def andThen_def emit_def refCount_def word_greater_zero_iff)

subsection \<open>The shape of a call of AllocateIdentity\<close>

lemma calm_simps [simp]:
  "calm []"
  "calm (e # es) = (\<not> isRefCounting e \<and> e \<noteq> Lock identityRefCountMutex \<and>
                     e \<noteq> Unlock identityRefCountMutex \<and> calm es)"
  "calm (es @ es') = (calm es \<and> calm es')"
  by (auto simp: calm_def)

lemma calm_waited [simp]: "calm (waited E ctx s)"
  using waited_cases [of E ctx s] by auto

lemma AllocateIdentity_shape:
  assumes "consistent s"
  shows "(idPoolRefCount (snd (AllocateIdentity E ctx lbls s)) = idPoolRefCount s \<and>
          identityControllerManager (snd (AllocateIdentity E ctx lbls s)) = identityControllerManager s \<and>
          calm (emitted s (snd (AllocateIdentity E ctx lbls s)))) \<or>
         (\<exists>i m rc pre post.
            identityControllerManager s = Some m \<and> idPoolRefCount s = Some rc \<and>
            calm pre \<and> calm post \<and>
            emitted s (snd (AllocateIdentity E ctx lbls s)) =
              pre @ [Lock identityRefCountMutex] @
              (if refCount s i = 0 then [Controller_UpdateController (controllerName i)] else []) @
              [RefCount_incr i, Unlock identityRefCountMutex] @ post \<and>
            idPoolRefCount (snd (AllocateIdentity E ctx lbls s)) = Some (rc(i \<mapsto> refCount s i + 1)) \<and>
            identityControllerManager (snd (AllocateIdentity E ctx lbls s)) =
              Some (if refCount s i = 0
                    then UpdateController (controllerName i) \<lparr>DoFunc = lbls, RunInterval = 1000000\<rparr> m
                    else m))"
    (is "?Q \<or> ?C")
proof -
  let ?l = "Log Debug [F_IdentityLabels (labels_String E lbls)] ''Resolving identity''"
  let ?W = "WaitForInitialIdentities E ctx (emit ?l s)"
  show ?thesis
  proof (cases "LookupReservedIdentityByLabels E (wellKnown s) lbls")
    case (Some r)
    then have "snd (AllocateIdentity E ctx lbls s) =
        emit (Log Debug [F_NumericIdentity (ID r), F_IdentityLabels (labels_String E lbls), F_isNew False]
                ''Resolved reserved identity'') (emit ?l s)"
      by (simp add: AllocateIdentity_def Let_def)
    then have ?Q by simp
    then show ?thesis ..
  next
    case None
    note lookup = this
    show ?thesis
    proof (cases "\<not> RequiresGlobalIdentity E lbls \<and> localIdentities s \<noteq> None")
      case True
      then obtain c where c: "localIdentities s = Some c" by auto
      have "snd (AllocateIdentity E ctx lbls s) =
          emit (Local_lookupOrCreate lbls)
            ((emit ?l s)\<lparr>localIdentities := Some (snd (local_lookupOrCreate E lbls c))\<rparr>)"
        using True by (simp add: AllocateIdentity_def Let_def lookup c split: prod.splits)
      then have ?Q by simp
      then show ?thesis ..
    next
      case False
      then have path: "\<not> RequiresGlobalIdentity E lbls \<Longrightarrow> localIdentities s = None"
        by auto
      have unfold: "AllocateIdentity E ctx lbls s =
          andThen ?W
            (\<lambda>_ s2.
               case IdentityAllocator s2 of
                 None \<Rightarrow> (Returns (None, False, Some ''allocator not initialized''), s2)
               | Some a \<Rightarrow>
                   (case allocator_Allocate E ctx lbls a of
                      (Inl err, a') \<Rightarrow>
                        (Returns (None, False, Some err),
                         emit (Allocator_Allocate lbls) (s2\<lparr>IdentityAllocator := Some a'\<rparr>))
                    | (Inr (i, isNew), a') \<Rightarrow>
                        andThen
                          (lockedIncrement lbls i
                             (emit (Allocator_Allocate lbls) (s2\<lparr>IdentityAllocator := Some a'\<rparr>)))
                          (\<lambda>_ s7.
                             (Returns (Some \<lparr>ID = ucast i, Labels = lbls\<rparr>, isNew, None),
                              emit (Log Debug [F_ID i, F_IdentityLabels (labels_String E lbls),
                                               F_isNew isNew] ''Resolved identity'') s7))))"
        by (simp add: AllocateIdentity_def Let_def lookup path)
      show ?thesis
      proof (cases "\<exists>w a i isNew a'. fst ?W = Returns w \<and> IdentityAllocator s = Some a \<and>
                      allocator_Allocate E ctx lbls a = (Inr (i, isNew), a')")
        case False
        have "snd (AllocateIdentity E ctx lbls s) = snd ?W \<or>
              (\<exists>a'. snd (AllocateIdentity E ctx lbls s) =
                 emit (Allocator_Allocate lbls) ((snd ?W)\<lparr>IdentityAllocator := Some a'\<rparr>))"
          using False unfolding unfold andThen_alt
          by (auto split: outcome.splits option.splits prod.splits sum.splits)
        then have ?Q by auto
        then show ?thesis ..
      next
        case True
        then obtain w a i isNew a' where w: "fst ?W = Returns w"
          and a: "IdentityAllocator s = Some a"
          and r: "allocator_Allocate E ctx lbls a = (Inr (i, isNew), a')"
          by blast
        obtain m rc where m: "identityControllerManager s = Some m"
          and rc: "idPoolRefCount s = Some rc"
          using assms a by (auto simp: consistent_def)
        let ?s3 = "emit (Allocator_Allocate lbls) ((snd ?W)\<lparr>IdentityAllocator := Some a'\<rparr>)"
        have m3: "identityControllerManager ?s3 = Some m" using m by simp
        have rc3: "idPoolRefCount ?s3 = Some rc" using rc by simp
        have c3: "refCount ?s3 i = refCount s i" by simp
        have t3: "trace ?s3 = trace s @ (?l # waited E ctx s @ [Allocator_Allocate lbls])"
          by simp
        let ?post = "[Log Debug [F_ID i, F_IdentityLabels (labels_String E lbls), F_isNew isNew]
                        ''Resolved identity'']"
        let ?upd = "if refCount s i = 0 then [Controller_UpdateController (controllerName i)] else []"
        have sA: "snd (AllocateIdentity E ctx lbls s) =
            emit (hd ?post)
              (?s3\<lparr>identityControllerManager :=
                      Some (if refCount s i = 0
                            then UpdateController (controllerName i) \<lparr>DoFunc = lbls, RunInterval = 1000000\<rparr> m
                            else m),
                    idPoolRefCount := Some (rc(i \<mapsto> refCount s i + 1)),
                    trace := trace ?s3 @ Lock identityRefCountMutex # ?upd @
                      [RefCount_incr i, Unlock identityRefCountMutex]\<rparr>)"
          unfolding unfold andThen_alt
          using w a r lockedIncrement_live [OF m3 rc3, of lbls i]
          by (simp add: c3)
        have tr: "trace (snd (AllocateIdentity E ctx lbls s)) =
            trace s @ ((?l # waited E ctx s @ [Allocator_Allocate lbls]) @
              [Lock identityRefCountMutex] @ ?upd @
              [RefCount_incr i, Unlock identityRefCountMutex] @ ?post)"
          unfolding sA by (simp add: t3)
        have "emitted s (snd (AllocateIdentity E ctx lbls s)) =
            (?l # waited E ctx s @ [Allocator_Allocate lbls]) @
              [Lock identityRefCountMutex] @ ?upd @
              [RefCount_incr i, Unlock identityRefCountMutex] @ ?post"
          using tr by (rule emitted_append)
        moreover have "calm (?l # waited E ctx s @ [Allocator_Allocate lbls])" by simp
        moreover have "calm ?post" by simp
        moreover have "idPoolRefCount (snd (AllocateIdentity E ctx lbls s)) =
            Some (rc(i \<mapsto> refCount s i + 1))"
          unfolding sA by simp
        moreover have "identityControllerManager (snd (AllocateIdentity E ctx lbls s)) =
              Some (if refCount s i = 0
                    then UpdateController (controllerName i) \<lparr>DoFunc = lbls, RunInterval = 1000000\<rparr> m
                    else m)"
          unfolding sA by simp
        ultimately have ?C using m rc by blast
        then show ?thesis ..
      qed
    qed
  qed
qed

subsection \<open>Critical sections, and the shape of a call of Release\<close>

lemma emitted_same [simp]: "emitted s s = []"
  by (simp add: emitted_def)

lemma calm_notin: "calm es \<Longrightarrow> isRefCounting e \<Longrightarrow> e \<notin> set es"
  by (auto simp: calm_def list_all_iff)

lemma calm_filter [simp]: "calm es \<Longrightarrow> filter isRefCounting es = []"
  by (auto simp: calm_def list_all_iff filter_empty_conv)

lemma criticalSections_open:
  "list_all (\<lambda>e. e \<noteq> Lock m \<and> e \<noteq> Unlock m) mid \<Longrightarrow>
     criticalSections m (Some cur) (mid @ rest) = criticalSections m (Some (cur @ mid)) rest"
  by (induction mid arbitrary: cur) simp_all

lemma criticalSections_closed:
  "list_all (\<lambda>e. e \<noteq> Lock m \<and> e \<noteq> Unlock m) pre \<Longrightarrow>
     criticalSections m None (pre @ rest) = criticalSections m None rest"
  by (induction pre) simp_all

lemma unprotected_open:
  "list_all (\<lambda>e. e \<noteq> Lock m \<and> e \<noteq> Unlock m) mid \<Longrightarrow>
     unprotected m True (mid @ rest) = unprotected m True rest"
  by (induction mid) simp_all

lemma unprotected_closed:
  "list_all (\<lambda>e. e \<noteq> Lock m \<and> e \<noteq> Unlock m) pre \<Longrightarrow>
     unprotected m False (pre @ rest) = pre @ unprotected m False rest"
  by (induction pre) simp_all

lemma calm_nolock:
  "calm es \<Longrightarrow> list_all (\<lambda>e. e \<noteq> Lock identityRefCountMutex \<and> e \<noteq> Unlock identityRefCountMutex) es"
  by (auto simp: calm_def list_all_iff)

lemma calm_trace:
  assumes "calm es"
  shows "criticalSections identityRefCountMutex None es = []"
    and "unprotected identityRefCountMutex False es = es"
  using criticalSections_closed [OF calm_nolock [OF assms], of "[]"]
    unprotected_closed [OF calm_nolock [OF assms], of "[]"]
  by simp_all

lemma one_section:
  assumes "calm pre" and "calm post"
    and "list_all (\<lambda>e. e \<noteq> Lock identityRefCountMutex \<and> e \<noteq> Unlock identityRefCountMutex) mid"
  shows "criticalSections identityRefCountMutex None
           (pre @ [Lock identityRefCountMutex] @ mid @ [Unlock identityRefCountMutex] @ post) = [mid]"
    and "unprotected identityRefCountMutex False
           (pre @ [Lock identityRefCountMutex] @ mid @ [Unlock identityRefCountMutex] @ post) = pre @ post"
proof -
  have "criticalSections identityRefCountMutex None
           (pre @ [Lock identityRefCountMutex] @ mid @ [Unlock identityRefCountMutex] @ post) =
        criticalSections identityRefCountMutex (Some []) (mid @ [Unlock identityRefCountMutex] @ post)"
    by (simp add: criticalSections_closed [OF calm_nolock [OF assms(1)]])
  also have "\<dots> = criticalSections identityRefCountMutex (Some ([] @ mid)) ([Unlock identityRefCountMutex] @ post)"
    by (rule criticalSections_open [OF assms(3)])
  also have "\<dots> = [mid]"
    by (simp add: calm_trace(1) [OF assms(2)])
  finally show "criticalSections identityRefCountMutex None
           (pre @ [Lock identityRefCountMutex] @ mid @ [Unlock identityRefCountMutex] @ post) = [mid]" .
  have "unprotected identityRefCountMutex False
           (pre @ [Lock identityRefCountMutex] @ mid @ [Unlock identityRefCountMutex] @ post) =
        pre @ unprotected identityRefCountMutex True (mid @ [Unlock identityRefCountMutex] @ post)"
    by (simp add: unprotected_closed [OF calm_nolock [OF assms(1)]])
  also have "\<dots> = pre @ unprotected identityRefCountMutex True ([Unlock identityRefCountMutex] @ post)"
    by (simp only: unprotected_open [OF assms(3)])
  also have "\<dots> = pre @ post"
    by (simp add: calm_trace(2) [OF assms(2)])
  finally show "unprotected identityRefCountMutex False
           (pre @ [Lock identityRefCountMutex] @ mid @ [Unlock identityRefCountMutex] @ post) = pre @ post" .
qed

lemma Release_shape:
  assumes "consistent s"
  shows "(idPoolRefCount (snd (Release E ctx idp s)) = idPoolRefCount s \<and>
          identityControllerManager (snd (Release E ctx idp s)) = identityControllerManager s \<and>
          calm (emitted s (snd (Release E ctx idp s)))) \<or>
         (\<exists>i m rc pre post.
            identityControllerManager s = Some m \<and> idPoolRefCount s = Some rc \<and>
            calm pre \<and> calm post \<and>
            emitted s (snd (Release E ctx idp s)) =
              pre @ [Lock identityRefCountMutex] @
              (if refCount s i = 0 then []
               else (if refCount s i = 1 then [Controller_RemoveControllerAndWait (controllerName i)] else []) @
                    [RefCount_decr i]) @
              [Unlock identityRefCountMutex] @ post \<and>
            idPoolRefCount (snd (Release E ctx idp s)) =
              (if refCount s i = 0 then Some rc else Some (rc(i \<mapsto> refCount s i - 1))) \<and>
            identityControllerManager (snd (Release E ctx idp s)) =
              Some (if refCount s i = 1 then RemoveControllerAndWait (controllerName i) m else m))"
    (is "?Q \<or> ?C")
proof -
  let ?W = "WaitForInitialIdentities E ctx s"
  show ?thesis
  proof (cases "IsReserved E (wellKnown s) idp")
    case True
    then have "snd (Release E ctx idp s) = s" by (simp add: Release_def)
    then have ?Q by simp
    then show ?thesis ..
  next
    case False
    note notres = this
    show ?thesis
    proof (cases "\<not> RequiresGlobalIdentity E (Labels idp) \<and> localIdentities s \<noteq> None")
      case True
      then obtain c where c: "localIdentities s = Some c" by auto
      have "snd (Release E ctx idp s) =
          emit (Local_release idp) (s\<lparr>localIdentities := Some (snd (local_release E idp c))\<rparr>)"
        using True by (simp add: Release_def Let_def notres c split: prod.splits)
      then have ?Q by simp
      then show ?thesis ..
    next
      case False
      then have path: "\<not> RequiresGlobalIdentity E (Labels idp) \<Longrightarrow> localIdentities s = None"
        by auto
      have unfold: "Release E ctx idp s =
          andThen ?W
            (\<lambda>_ s2.
               case IdentityAllocator s2 of
                 None \<Rightarrow> (Returns (False, Some ''allocator not initialized''), s2)
               | Some a \<Rightarrow>
                   (case allocator_Release E ctx (Labels idp) a of
                      (Inl err, a') \<Rightarrow>
                        (Returns (False, Some err),
                         emit (Allocator_Release (Labels idp)) (s2\<lparr>IdentityAllocator := Some a'\<rparr>))
                    | (Inr lastUse, a') \<Rightarrow>
                        andThen
                          (lockedDecrement (ucast (ID idp))
                             (emit (Allocator_Release (Labels idp)) (s2\<lparr>IdentityAllocator := Some a'\<rparr>)))
                          (\<lambda>_ s7. (Returns (lastUse, None), s7))))"
        by (simp add: Release_def Let_def notres path)
      show ?thesis
      proof (cases "\<exists>w a lastUse a'. fst ?W = Returns w \<and> IdentityAllocator s = Some a \<and>
                      allocator_Release E ctx (Labels idp) a = (Inr lastUse, a')")
        case False
        have "snd (Release E ctx idp s) = snd ?W \<or>
              (\<exists>a'. snd (Release E ctx idp s) =
                 emit (Allocator_Release (Labels idp)) ((snd ?W)\<lparr>IdentityAllocator := Some a'\<rparr>))"
          using False unfolding unfold andThen_alt
          by (auto split: outcome.splits option.splits prod.splits sum.splits)
        then have ?Q
        proof
          assume "snd (Release E ctx idp s) = snd ?W"
          then show ?Q by simp
        next
          assume "\<exists>a'. snd (Release E ctx idp s) =
                 emit (Allocator_Release (Labels idp)) ((snd ?W)\<lparr>IdentityAllocator := Some a'\<rparr>)"
          then obtain a' where "snd (Release E ctx idp s) =
                 emit (Allocator_Release (Labels idp)) ((snd ?W)\<lparr>IdentityAllocator := Some a'\<rparr>)"
            by blast
          then show ?Q by simp
        qed
        then show ?thesis ..
      next
        case True
        then obtain w a lastUse a' where w: "fst ?W = Returns w"
          and a: "IdentityAllocator s = Some a"
          and r: "allocator_Release E ctx (Labels idp) a = (Inr lastUse, a')"
          by blast
        obtain m rc where m: "identityControllerManager s = Some m"
          and rc: "idPoolRefCount s = Some rc"
          using assms a by (auto simp: consistent_def)
        let ?i = "ucast (ID idp) :: ID"
        let ?s3 = "emit (Allocator_Release (Labels idp)) ((snd ?W)\<lparr>IdentityAllocator := Some a'\<rparr>)"
        have m3: "identityControllerManager ?s3 = Some m" using m by simp
        have rc3: "idPoolRefCount ?s3 = Some rc" using rc by simp
        have c3: "refCount ?s3 ?i = refCount s ?i" by simp
        have t3: "trace ?s3 = trace s @ (waited E ctx s @ [Allocator_Release (Labels idp)])"
          by simp
        let ?mid = "if refCount s ?i = 0 then []
               else (if refCount s ?i = 1 then [Controller_RemoveControllerAndWait (controllerName ?i)] else []) @
                    [RefCount_decr ?i]"
        have sR: "snd (Release E ctx idp s) = snd (lockedDecrement ?i ?s3)"
          unfolding unfold andThen_alt
          using w a r by (simp split: outcome.splits)
        have tr: "trace (snd (Release E ctx idp s)) =
            trace s @ ((waited E ctx s @ [Allocator_Release (Labels idp)]) @
              [Lock identityRefCountMutex] @ ?mid @ [Unlock identityRefCountMutex] @ [])"
        proof (cases "refCount s ?i = 0")
          case True
          then show ?thesis
            unfolding sR using lockedDecrement_zero [of ?s3 ?i] c3 by (simp add: t3)
        next
          case False
          then have "refCount ?s3 ?i \<noteq> 0" using c3 by simp
          from lockedDecrement_live [OF m3 rc3 this] False show ?thesis
            unfolding sR by (simp add: t3 c3)
        qed
        have "emitted s (snd (Release E ctx idp s)) =
            (waited E ctx s @ [Allocator_Release (Labels idp)]) @
              [Lock identityRefCountMutex] @ ?mid @ [Unlock identityRefCountMutex] @ []"
          using tr by (rule emitted_append)
        moreover have "calm (waited E ctx s @ [Allocator_Release (Labels idp)])" by simp
        moreover have "calm []" by simp
        moreover have "idPoolRefCount (snd (Release E ctx idp s)) =
              (if refCount s ?i = 0 then Some rc else Some (rc(?i \<mapsto> refCount s ?i - 1)))"
        proof (cases "refCount s ?i = 0")
          case True
          then show ?thesis
            unfolding sR using lockedDecrement_zero [of ?s3 ?i] c3 rc by simp
        next
          case False
          then have "refCount ?s3 ?i \<noteq> 0" using c3 by simp
          from lockedDecrement_live [OF m3 rc3 this] False show ?thesis
            unfolding sR by (simp add: c3)
        qed
        moreover have "identityControllerManager (snd (Release E ctx idp s)) =
              Some (if refCount s ?i = 1 then RemoveControllerAndWait (controllerName ?i) m else m)"
        proof (cases "refCount s ?i = 0")
          case True
          then show ?thesis
            unfolding sR using lockedDecrement_zero [of ?s3 ?i] c3 m by simp
        next
          case False
          then have "refCount ?s3 ?i \<noteq> 0" using c3 by simp
          from lockedDecrement_live [OF m3 rc3 this] False show ?thesis
            unfolding sR by (simp add: c3)
        qed
        ultimately have ?C using m rc by blast
        then show ?thesis ..
      qed
    qed
  qed
qed

subsection \<open>Arming\<close>

lemma refCount_same: "idPoolRefCount s' = idPoolRefCount s \<Longrightarrow> refCount s' = refCount s"
  by (simp add: refCount_def fun_eq_iff)

lemma refCount_after:
  "idPoolRefCount s = Some rc \<Longrightarrow> idPoolRefCount s' = Some (rc(i \<mapsto> v)) \<Longrightarrow>
     refCount s' j = (if j = i then v else refCount s j)"
  by (simp add: refCount_def)

lemma arms_quiet:
  assumes rc: "refCount sA = refCount s" and c: "calm es"
  shows "(Controller_UpdateController n \<in> set es \<longleftrightarrow>
            (\<exists>j. n = controllerName j \<and> refCount s j = 0 \<and> refCount sA j = 1)) \<and>
         (refCount s i = 0 \<and> refCount sA i = 1 \<longrightarrow> keepAliveTasks sA i = 1) \<and>
         filter isRefCounting (unprotected identityRefCountMutex False es) = [] \<and>
         (criticalSections identityRefCountMutex None es = [] \<or>
          (\<exists>j. criticalSections identityRefCountMutex None es =
                [(if refCount s j = 0 then [Controller_UpdateController (controllerName j)] else []) @
                 [RefCount_incr j]]))"
proof (intro conjI)
  have "Controller_UpdateController n \<notin> set es"
    using c by (rule calm_notin) simp
  moreover have "\<not> (\<exists>j. n = controllerName j \<and> refCount s j = 0 \<and> refCount sA j = 1)"
    unfolding rc by auto
  ultimately show "Controller_UpdateController n \<in> set es \<longleftrightarrow>
            (\<exists>j. n = controllerName j \<and> refCount s j = 0 \<and> refCount sA j = 1)"
    by simp
  show "refCount s i = 0 \<and> refCount sA i = 1 \<longrightarrow> keepAliveTasks sA i = 1"
    unfolding rc by auto
  show "filter isRefCounting (unprotected identityRefCountMutex False es) = []"
    using c by (simp add: calm_trace(2))
  show "criticalSections identityRefCountMutex None es = [] \<or>
          (\<exists>j. criticalSections identityRefCountMutex None es =
                [(if refCount s j = 0 then [Controller_UpdateController (controllerName j)] else []) @
                 [RefCount_incr j]])"
    using c by (simp add: calm_trace(1))
qed

lemma arms_counted:
  assumes d: "distinct (map fst m)"
    and pre: "calm pre" and post: "calm post"
    and after: "\<And>k. refCount sA k = (if k = j then refCount s j + 1 else refCount s k)"
    and mA: "identityControllerManager sA =
              Some (if refCount s j = 0 then UpdateController (controllerName j) q m else m)"
    and es: "es = pre @ [Lock identityRefCountMutex] @
              ((if refCount s j = 0 then [Controller_UpdateController (controllerName j)] else []) @
               [RefCount_incr j]) @ [Unlock identityRefCountMutex] @ post"
  shows "(Controller_UpdateController n \<in> set es \<longleftrightarrow>
            (\<exists>k. n = controllerName k \<and> refCount s k = 0 \<and> refCount sA k = 1)) \<and>
         (refCount s i = 0 \<and> refCount sA i = 1 \<longrightarrow> keepAliveTasks sA i = 1) \<and>
         filter isRefCounting (unprotected identityRefCountMutex False es) = [] \<and>
         (criticalSections identityRefCountMutex None es = [] \<or>
          (\<exists>k. criticalSections identityRefCountMutex None es =
                [(if refCount s k = 0 then [Controller_UpdateController (controllerName k)] else []) @
                 [RefCount_incr k]]))"
proof (intro conjI)
  have nolock: "list_all (\<lambda>e. e \<noteq> Lock identityRefCountMutex \<and> e \<noteq> Unlock identityRefCountMutex)
        ((if refCount s j = 0 then [Controller_UpdateController (controllerName j)] else []) @
         [RefCount_incr j])"
    by simp
  have n1: "Controller_UpdateController n \<notin> set pre"
    using pre by (rule calm_notin) simp
  have n2: "Controller_UpdateController n \<notin> set post"
    using post by (rule calm_notin) simp
  have arm: "Controller_UpdateController n \<in> set es \<longleftrightarrow> (refCount s j = 0 \<and> n = controllerName j)"
    unfolding es using n1 n2 by (cases "refCount s j = 0") auto
  have one: "refCount s j = 0 \<Longrightarrow> refCount sA j = 1"
    by (simp add: after)
  have only: "refCount s k = 0 \<Longrightarrow> refCount sA k = 1 \<Longrightarrow> k = j" for k
    by (cases "k = j") (simp_all add: after)
  show "Controller_UpdateController n \<in> set es \<longleftrightarrow>
            (\<exists>k. n = controllerName k \<and> refCount s k = 0 \<and> refCount sA k = 1)"
  proof
    assume "Controller_UpdateController n \<in> set es"
    then have "refCount s j = 0 \<and> n = controllerName j" by (simp only: arm)
    then show "\<exists>k. n = controllerName k \<and> refCount s k = 0 \<and> refCount sA k = 1"
      using one by blast
  next
    assume "\<exists>k. n = controllerName k \<and> refCount s k = 0 \<and> refCount sA k = 1"
    then obtain k where k: "n = controllerName k" "refCount s k = 0" "refCount sA k = 1"
      by blast
    then have "k = j" using only by blast
    then have "refCount s j = 0 \<and> n = controllerName j" using k by simp
    then show "Controller_UpdateController n \<in> set es"
      using arm by blast
  qed
  show "refCount s i = 0 \<and> refCount sA i = 1 \<longrightarrow> keepAliveTasks sA i = 1"
  proof
    assume h: "refCount s i = 0 \<and> refCount sA i = 1"
    then have "i = j" using only by blast
    then show "keepAliveTasks sA i = 1"
      using h mA tasks_UpdateController [OF d, of "controllerName j" q]
      by (simp add: keepAliveTasks_def)
  qed
  have unp: "unprotected identityRefCountMutex False es = pre @ post"
    unfolding es by (rule one_section(2) [OF pre post nolock])
  show "filter isRefCounting (unprotected identityRefCountMutex False es) = []"
    unfolding unp using pre post by simp
  have "criticalSections identityRefCountMutex None es =
        [(if refCount s j = 0 then [Controller_UpdateController (controllerName j)] else []) @
         [RefCount_incr j]]"
    unfolding es by (rule one_section(1) [OF pre post nolock])
  then show "criticalSections identityRefCountMutex None es = [] \<or>
          (\<exists>k. criticalSections identityRefCountMutex None es =
                [(if refCount s k = 0 then [Controller_UpdateController (controllerName k)] else []) @
                 [RefCount_incr k]])"
    by blast
qed

lemma AllocateIdentity_arms:
  assumes "consistent s"
  shows "(Controller_UpdateController n \<in> set (emitted s (snd (AllocateIdentity E ctx lbls s))) \<longleftrightarrow>
            (\<exists>j. n = controllerName j \<and> refCount s j = 0 \<and>
                 refCount (snd (AllocateIdentity E ctx lbls s)) j = 1)) \<and>
         (refCount s i = 0 \<and> refCount (snd (AllocateIdentity E ctx lbls s)) i = 1 \<longrightarrow>
            keepAliveTasks (snd (AllocateIdentity E ctx lbls s)) i = 1) \<and>
         filter isRefCounting
           (unprotected identityRefCountMutex False (emitted s (snd (AllocateIdentity E ctx lbls s)))) = [] \<and>
         (criticalSections identityRefCountMutex None (emitted s (snd (AllocateIdentity E ctx lbls s))) = [] \<or>
          (\<exists>j. criticalSections identityRefCountMutex None (emitted s (snd (AllocateIdentity E ctx lbls s))) =
                [(if refCount s j = 0 then [Controller_UpdateController (controllerName j)] else []) @
                 [RefCount_incr j]]))"
proof -
  let ?sA = "snd (AllocateIdentity E ctx lbls s)"
  let ?P = "\<lambda>i m rc pre post.
            identityControllerManager s = Some m \<and> idPoolRefCount s = Some rc \<and>
            calm pre \<and> calm post \<and>
            emitted s ?sA =
              pre @ [Lock identityRefCountMutex] @
              (if refCount s i = 0 then [Controller_UpdateController (controllerName i)] else []) @
              [RefCount_incr i, Unlock identityRefCountMutex] @ post \<and>
            idPoolRefCount ?sA = Some (rc(i \<mapsto> refCount s i + 1)) \<and>
            identityControllerManager ?sA =
              Some (if refCount s i = 0
                    then UpdateController (controllerName i) \<lparr>DoFunc = lbls, RunInterval = 1000000\<rparr> m
                    else m)"
  from AllocateIdentity_shape [OF assms, of E ctx lbls]
  show ?thesis
  proof (rule disjE)
    assume q: "idPoolRefCount ?sA = idPoolRefCount s \<and>
          identityControllerManager ?sA = identityControllerManager s \<and> calm (emitted s ?sA)"
    then have "idPoolRefCount ?sA = idPoolRefCount s" by (rule conjunct1)
    then have rc: "refCount ?sA = refCount s" by (rule refCount_same)
    from q have c: "calm (emitted s ?sA)" by simp
    show ?thesis by (rule arms_quiet [OF rc c])
  next
    assume "\<exists>i m rc pre post. ?P i m rc pre post"
    then obtain j m rc pre post where P: "?P j m rc pre post"
      by (elim exE) (rule that)
    from P show ?thesis
    proof (elim conjE)
      assume m: "identityControllerManager s = Some m"
        and rc: "idPoolRefCount s = Some rc" and pre: "calm pre" and post: "calm post"
        and es: "emitted s ?sA =
              pre @ [Lock identityRefCountMutex] @
              (if refCount s j = 0 then [Controller_UpdateController (controllerName j)] else []) @
              [RefCount_incr j, Unlock identityRefCountMutex] @ post"
        and rcA: "idPoolRefCount ?sA = Some (rc(j \<mapsto> refCount s j + 1))"
        and mA: "identityControllerManager ?sA =
              Some (if refCount s j = 0
                    then UpdateController (controllerName j) \<lparr>DoFunc = lbls, RunInterval = 1000000\<rparr> m
                    else m)"
      have after: "\<And>k. refCount ?sA k = (if k = j then refCount s j + 1 else refCount s k)"
        by (rule refCount_after [OF rc rcA])
      have d: "distinct (map fst m)" using assms m by (simp add: consistent_def)
      have es': "emitted s ?sA = pre @ [Lock identityRefCountMutex] @
              ((if refCount s j = 0 then [Controller_UpdateController (controllerName j)] else []) @
               [RefCount_incr j]) @ [Unlock identityRefCountMutex] @ post"
        unfolding es by simp
      show ?thesis by (rule arms_counted [OF d pre post after mA es'])
    qed
  qed
qed

subsection \<open>Removing\<close>

lemma removes_quiet:
  assumes rc: "refCount sR = refCount s" and c: "calm es"
  shows "(Controller_RemoveControllerAndWait n \<in> set es \<longleftrightarrow>
            (\<exists>j. n = controllerName j \<and> refCount s j = 1 \<and> refCount sR j = 0)) \<and>
         (refCount s i = 1 \<and> refCount sR i = 0 \<longrightarrow> keepAliveTasks sR i = 0) \<and>
         filter isRefCounting (unprotected identityRefCountMutex False es) = [] \<and>
         (criticalSections identityRefCountMutex None es = [] \<or>
          (\<exists>j. criticalSections identityRefCountMutex None es =
                [if refCount s j = 0 then []
                 else (if refCount s j = 1 then [Controller_RemoveControllerAndWait (controllerName j)] else []) @
                      [RefCount_decr j]]))"
proof (intro conjI)
  have "Controller_RemoveControllerAndWait n \<notin> set es"
    using c by (rule calm_notin) simp
  moreover have "\<not> (\<exists>j. n = controllerName j \<and> refCount s j = 1 \<and> refCount sR j = 0)"
    unfolding rc by auto
  ultimately show "Controller_RemoveControllerAndWait n \<in> set es \<longleftrightarrow>
            (\<exists>j. n = controllerName j \<and> refCount s j = 1 \<and> refCount sR j = 0)"
    by simp
  show "refCount s i = 1 \<and> refCount sR i = 0 \<longrightarrow> keepAliveTasks sR i = 0"
    unfolding rc by auto
  show "filter isRefCounting (unprotected identityRefCountMutex False es) = []"
    using c by (simp add: calm_trace(2))
  show "criticalSections identityRefCountMutex None es = [] \<or>
          (\<exists>j. criticalSections identityRefCountMutex None es =
                [if refCount s j = 0 then []
                 else (if refCount s j = 1 then [Controller_RemoveControllerAndWait (controllerName j)] else []) @
                      [RefCount_decr j]])"
    using c by (simp add: calm_trace(1))
qed

lemma removes_counted:
  assumes pre: "calm pre" and post: "calm post"
    and after: "\<And>k. refCount sR k =
                  (if k = j \<and> refCount s j \<noteq> 0 then refCount s j - 1 else refCount s k)"
    and mR: "identityControllerManager sR =
              Some (if refCount s j = 1 then RemoveControllerAndWait (controllerName j) m else m)"
    and es: "es = pre @ [Lock identityRefCountMutex] @
              (if refCount s j = 0 then []
               else (if refCount s j = 1 then [Controller_RemoveControllerAndWait (controllerName j)] else []) @
                    [RefCount_decr j]) @ [Unlock identityRefCountMutex] @ post"
  shows "(Controller_RemoveControllerAndWait n \<in> set es \<longleftrightarrow>
            (\<exists>k. n = controllerName k \<and> refCount s k = 1 \<and> refCount sR k = 0)) \<and>
         (refCount s i = 1 \<and> refCount sR i = 0 \<longrightarrow> keepAliveTasks sR i = 0) \<and>
         filter isRefCounting (unprotected identityRefCountMutex False es) = [] \<and>
         (criticalSections identityRefCountMutex None es = [] \<or>
          (\<exists>k. criticalSections identityRefCountMutex None es =
                [if refCount s k = 0 then []
                 else (if refCount s k = 1 then [Controller_RemoveControllerAndWait (controllerName k)] else []) @
                      [RefCount_decr k]]))"
proof (intro conjI)
  let ?mid = "if refCount s j = 0 then []
               else (if refCount s j = 1 then [Controller_RemoveControllerAndWait (controllerName j)] else []) @
                    [RefCount_decr j]"
  have nolock: "list_all (\<lambda>e. e \<noteq> Lock identityRefCountMutex \<and> e \<noteq> Unlock identityRefCountMutex) ?mid"
    by simp
  have n1: "Controller_RemoveControllerAndWait n \<notin> set pre"
    using pre by (rule calm_notin) simp
  have n2: "Controller_RemoveControllerAndWait n \<notin> set post"
    using post by (rule calm_notin) simp
  have rem: "Controller_RemoveControllerAndWait n \<in> set es \<longleftrightarrow> (refCount s j = 1 \<and> n = controllerName j)"
    unfolding es using n1 n2
    by (cases "refCount s j = 0"; cases "refCount s j = 1") auto
  have one: "refCount s j = 1 \<Longrightarrow> refCount sR j = 0"
    by (simp add: after)
  have only: "refCount s k = 1 \<Longrightarrow> refCount sR k = 0 \<Longrightarrow> k = j" for k
    by (cases "k = j") (simp_all add: after)
  show "Controller_RemoveControllerAndWait n \<in> set es \<longleftrightarrow>
            (\<exists>k. n = controllerName k \<and> refCount s k = 1 \<and> refCount sR k = 0)"
  proof
    assume "Controller_RemoveControllerAndWait n \<in> set es"
    then have "refCount s j = 1 \<and> n = controllerName j" using rem by blast
    then show "\<exists>k. n = controllerName k \<and> refCount s k = 1 \<and> refCount sR k = 0"
      using one by blast
  next
    assume "\<exists>k. n = controllerName k \<and> refCount s k = 1 \<and> refCount sR k = 0"
    then obtain k where k: "n = controllerName k" "refCount s k = 1" "refCount sR k = 0"
      by blast
    then have "k = j" using only by blast
    then have "refCount s j = 1 \<and> n = controllerName j" using k by simp
    then show "Controller_RemoveControllerAndWait n \<in> set es"
      using rem by blast
  qed
  show "refCount s i = 1 \<and> refCount sR i = 0 \<longrightarrow> keepAliveTasks sR i = 0"
  proof
    assume h: "refCount s i = 1 \<and> refCount sR i = 0"
    then have "i = j" using only by blast
    then show "keepAliveTasks sR i = 0"
      using h mR tasks_RemoveControllerAndWait [of "controllerName j" m]
      by (simp add: keepAliveTasks_def)
  qed
  have unp: "unprotected identityRefCountMutex False es = pre @ post"
    unfolding es by (rule one_section(2) [OF pre post nolock])
  show "filter isRefCounting (unprotected identityRefCountMutex False es) = []"
    unfolding unp using pre post by simp
  have "criticalSections identityRefCountMutex None es = [?mid]"
    unfolding es by (rule one_section(1) [OF pre post nolock])
  then show "criticalSections identityRefCountMutex None es = [] \<or>
          (\<exists>k. criticalSections identityRefCountMutex None es =
                [if refCount s k = 0 then []
                 else (if refCount s k = 1 then [Controller_RemoveControllerAndWait (controllerName k)] else []) @
                      [RefCount_decr k]])"
    by blast
qed

lemma Release_removes:
  assumes "consistent s"
  shows "(Controller_RemoveControllerAndWait n \<in> set (emitted s (snd (Release E ctx idp s))) \<longleftrightarrow>
            (\<exists>j. n = controllerName j \<and> refCount s j = 1 \<and>
                 refCount (snd (Release E ctx idp s)) j = 0)) \<and>
         (refCount s i = 1 \<and> refCount (snd (Release E ctx idp s)) i = 0 \<longrightarrow>
            keepAliveTasks (snd (Release E ctx idp s)) i = 0) \<and>
         filter isRefCounting
           (unprotected identityRefCountMutex False (emitted s (snd (Release E ctx idp s)))) = [] \<and>
         (criticalSections identityRefCountMutex None (emitted s (snd (Release E ctx idp s))) = [] \<or>
          (\<exists>j. criticalSections identityRefCountMutex None (emitted s (snd (Release E ctx idp s))) =
                [if refCount s j = 0 then []
                 else (if refCount s j = 1 then [Controller_RemoveControllerAndWait (controllerName j)] else []) @
                      [RefCount_decr j]]))"
proof -
  let ?sR = "snd (Release E ctx idp s)"
  let ?P = "\<lambda>i m rc pre post.
            identityControllerManager s = Some m \<and> idPoolRefCount s = Some rc \<and>
            calm pre \<and> calm post \<and>
            emitted s ?sR =
              pre @ [Lock identityRefCountMutex] @
              (if refCount s i = 0 then []
               else (if refCount s i = 1 then [Controller_RemoveControllerAndWait (controllerName i)] else []) @
                    [RefCount_decr i]) @
              [Unlock identityRefCountMutex] @ post \<and>
            idPoolRefCount ?sR =
              (if refCount s i = 0 then Some rc else Some (rc(i \<mapsto> refCount s i - 1))) \<and>
            identityControllerManager ?sR =
              Some (if refCount s i = 1 then RemoveControllerAndWait (controllerName i) m else m)"
  from Release_shape [OF assms, of E ctx idp]
  show ?thesis
  proof (rule disjE)
    assume q: "idPoolRefCount ?sR = idPoolRefCount s \<and>
          identityControllerManager ?sR = identityControllerManager s \<and> calm (emitted s ?sR)"
    then have "idPoolRefCount ?sR = idPoolRefCount s" by (rule conjunct1)
    then have rc: "refCount ?sR = refCount s" by (rule refCount_same)
    from q have c: "calm (emitted s ?sR)" by (elim conjE)
    show ?thesis by (rule removes_quiet [OF rc c])
  next
    assume "\<exists>i m rc pre post. ?P i m rc pre post"
    then obtain j m rc pre post where P: "?P j m rc pre post"
      by (elim exE) (rule that)
    from P show ?thesis
    proof (elim conjE)
      assume m: "identityControllerManager s = Some m"
        and rc: "idPoolRefCount s = Some rc" and pre: "calm pre" and post: "calm post"
        and es: "emitted s ?sR =
              pre @ [Lock identityRefCountMutex] @
              (if refCount s j = 0 then []
               else (if refCount s j = 1 then [Controller_RemoveControllerAndWait (controllerName j)] else []) @
                    [RefCount_decr j]) @
              [Unlock identityRefCountMutex] @ post"
        and rcR: "idPoolRefCount ?sR =
              (if refCount s j = 0 then Some rc else Some (rc(j \<mapsto> refCount s j - 1)))"
        and mR: "identityControllerManager ?sR =
              Some (if refCount s j = 1 then RemoveControllerAndWait (controllerName j) m else m)"
      have after: "\<And>k. refCount ?sR k =
                  (if k = j \<and> refCount s j \<noteq> 0 then refCount s j - 1 else refCount s k)"
      proof -
        fix k
        show "refCount ?sR k =
                  (if k = j \<and> refCount s j \<noteq> 0 then refCount s j - 1 else refCount s k)"
        proof (cases "refCount s j = 0")
          case True
          then have "idPoolRefCount ?sR = idPoolRefCount s" using rcR rc by simp
          then have "refCount ?sR = refCount s" by (rule refCount_same)
          then show ?thesis using True by simp
        next
          case False
          then have "idPoolRefCount ?sR = Some (rc(j \<mapsto> refCount s j - 1))" using rcR by simp
          from refCount_after [OF rc this, of k] False show ?thesis by simp
        qed
      qed
      show ?thesis by (rule removes_counted [OF pre post after mR es])
    qed
  qed
qed

lemma AllocateIdentity_started:
  "refCount startedState 256 = 0 \<and>
   refCount (snd (AllocateIdentity testEnv background ''k8s:app=foo'' startedState)) 256 = 1 \<and>
   fst (AllocateIdentity testEnv background ''k8s:app=foo'' startedState) =
     Returns (Some \<lparr>ID = 256, Labels = ''k8s:app=foo''\<rparr>, True, None)"
  by (simp add: startedState_eq AllocateIdentity_def lockedIncrement_def
        WaitForInitialIdentities_def andThen_def testEnv_def background_def emit_def
        Let_def refCount_def)

subsection \<open>At most one keep-alive controller for an identity\<close>



end
